theory Spec2Isabelle
  imports Main
begin

section \<open>Exceptions of the Python backend\<close>

text \<open>
  Every \<^verbatim>\<open>raise\<close> of the backend is a value here. \<open>ValidationError\<close> is the validators' own
  exception class, \<open>ValueError\<close> is Python's, \<open>HTTPException\<close> carries the status code and
  \<open>IntegrityError\<close> is what the database layer raises on a violated constraint.
\<close>

datatype py_exn =
    ValidationError string
  | ValueError string
  | HTTPException nat string
  | IntegrityError string

section \<open>Input validation: \<^verbatim>\<open>InputValidator.validate_date\<close>\<close>

text \<open>
  \<^verbatim>\<open>backend/utils/validators.py\<close> as printed in PRODUCTION_UPGRADE.md:
  \<^verbatim>\<open>
    def validate_date(date_str: str) -> date:
        try:
            appt_date = datetime.strptime(date_str, "%Y-%m-%d").date()
        except ValueError:
            raise ValidationError("Invalid date format. Use YYYY-MM-DD")
        if appt_date < date.today():
            raise ValidationError("Appointment date cannot be in the past")
        # Max 6 months in advance
        max_date = date.today().replace(month=date.today().month + 6)
        if appt_date > max_date:
            raise ValidationError("Cannot book more than 6 months in advance")
        return appt_date
  \<close>
  A \<^verbatim>\<open>datetime.date\<close> is a year, a month and a day; dates compare lexicographically.
\<close>

record py_date =
  year :: int
  month :: int
  day :: int

definition date_lt :: "py_date \<Rightarrow> py_date \<Rightarrow> bool" where
  "date_lt a b \<longleftrightarrow>
     year a < year b \<or>
     (year a = year b \<and> (month a < month b \<or> (month a = month b \<and> day a < day b)))"

definition is_leap :: "int \<Rightarrow> bool" where
  "is_leap y \<longleftrightarrow> y mod 4 = 0 \<and> (y mod 100 \<noteq> 0 \<or> y mod 400 = 0)"

definition days_in_month :: "int \<Rightarrow> int \<Rightarrow> int" where
  "days_in_month y m =
     (if m = 2 then (if is_leap y then 29 else 28)
      else if m = 4 \<or> m = 6 \<or> m = 9 \<or> m = 11 then 30 else 31)"

text \<open>
  \<^verbatim>\<open>date.replace(month=m)\<close> builds a new date and raises \<open>ValueError\<close> when the month is not
  in 1..12 or the day does not exist in that month.
\<close>

definition replace_month :: "py_date \<Rightarrow> int \<Rightarrow> py_exn + py_date" where
  "replace_month d m =
     (if m < 1 \<or> 12 < m then Inl (ValueError ''month must be in 1..12'')
      else if days_in_month (year d) m < day d then Inl (ValueError ''day is out of range for month'')
      else Inr (d\<lparr>month := m\<rparr>))"

text \<open>
  \<^verbatim>\<open>strptime\<close> belongs to the standard library; it is a parameter here, \<open>None\<close> standing for
  its \<open>ValueError\<close> (which the \<^verbatim>\<open>try\<close> block turns into a \<open>ValidationError\<close>). \<open>today\<close> is
  the value of \<^verbatim>\<open>date.today()\<close>. The call of \<^verbatim>\<open>replace\<close> is outside the \<^verbatim>\<open>try\<close> block, so
  its \<open>ValueError\<close> propagates.
\<close>

definition validate_date :: "(string \<Rightarrow> py_date option) \<Rightarrow> py_date \<Rightarrow> string \<Rightarrow> py_exn + py_date" where
  "validate_date strptime today date_str =
     (case strptime date_str of
        None \<Rightarrow> Inl (ValidationError ''Invalid date format. Use YYYY-MM-DD'')
      | Some appt_date \<Rightarrow>
          if date_lt appt_date today
          then Inl (ValidationError ''Appointment date cannot be in the past'')
          else (case replace_month today (month today + 6) of
                  Inl e \<Rightarrow> Inl e
                | Inr max_date \<Rightarrow>
                    if date_lt max_date appt_date
                    then Inl (ValidationError ''Cannot book more than 6 months in advance'')
                    else Inr appt_date))"

section \<open>Conversation memory: \<^verbatim>\<open>ConversationMemoryManager\<close>\<close>

text \<open>
  The table \<^verbatim>\<open>conversation_contexts\<close> (APPOINTMENT_VALIDATION_IMPLEMENTATION.md) and the JSON
  document of its column \<^verbatim>\<open>context_data\<close>. Timestamps are seconds; \<^verbatim>\<open>patient_email\<close> is a
  nullable column (rows written before the isolation fix hold NULL there).
\<close>

record doctor_selection =
  sd_id :: nat
  sd_name :: string
  sd_specialization :: string
  sd_selected_at :: nat

record rejection_entry =
  rj_date :: string
  rj_reason :: string
  rj_timestamp :: nat

record booking_memo =
  bm_appointment_id :: nat
  bm_doctor_name :: string
  bm_date :: string
  bm_time :: string
  bm_booked_at :: nat

record context_json =
  selected_doctor :: "doctor_selection option"
  attempted_dates :: "string list"
  last_rejection_reason :: "string option"
  rejection_history :: "rejection_entry list"
  last_successful_booking :: "booking_memo option"

record conversation_context =
  session_id :: string
  patient_email :: "string option"
  context_data :: context_json
  last_message :: "string option"
  last_response :: "string option"
  message_count :: nat
  created_at :: nat
  updated_at :: nat
  expires_at :: nat

type_synonym contexts_table = "conversation_context list"

text \<open>
  The dual-key filter of SECURITY_USER_ISOLATION.md,
  \<^verbatim>\<open>
    db.query(ConversationContext).filter(
        ConversationContext.session_id == session_id,
        ConversationContext.patient_email == patient_email).first()
  \<close>
  A NULL \<^verbatim>\<open>patient_email\<close> equals nothing in SQL, so such a row matches no request.
\<close>

definition matches :: "string \<Rightarrow> string \<Rightarrow> conversation_context \<Rightarrow> bool" where
  "matches s e r \<longleftrightarrow> session_id r = s \<and> patient_email r = Some e"

definition query_first :: "string \<Rightarrow> string \<Rightarrow> contexts_table \<Rightarrow> conversation_context option" where
  "query_first s e tbl = find (matches s e) tbl"

text \<open>Python's \<^verbatim>\<open>not x\<close> on an optional string: true for \<^verbatim>\<open>None\<close> and for the empty string.\<close>

fun falsy :: "string option \<Rightarrow> bool" where
  "falsy None = True"
| "falsy (Some s) = (s = [])"

text \<open>Decimal digits of a number, for the texts that print an identifier or a count.\<close>

fun show_nat :: "nat \<Rightarrow> string" where
  "show_nat n =
     (if n < 10 then [char_of (48 + n)] else show_nat (n div 10) @ [char_of (48 + n mod 10)])"

declare show_nat.simps [simp del]

fun join :: "string \<Rightarrow> string list \<Rightarrow> string" where
  "join sep [] = []"
| "join sep [x] = x"
| "join sep (x # y # ys) = x @ sep @ join sep (y # ys)"

text \<open>
  Modelled from the spec: the text that \<^verbatim>\<open>get_context_for_prompt\<close> builds from the row it
  found. Only the query of that function is printed in the sources; the lines follow the
  block "Injected into system prompt" of APPOINTMENT_VALIDATION_IMPLEMENTATION.md, one line
  per stored item.
\<close>

definition render_context :: "conversation_context \<Rightarrow> string" where
  "render_context r =
     (let c = context_data r in
      ''**Conversation Context:**'' @
      (case selected_doctor c of
         None \<Rightarrow> []
       | Some d \<Rightarrow> [CHR 10] @ ''- The user has previously shown interest in '' @ sd_name d
                    @ '' ('' @ sd_specialization d @ '').'') @
      (if attempted_dates c = [] then []
       else [CHR 10] @ ''- The user has attempted to book on: '' @ join '', '' (attempted_dates c) @ ''.'') @
      (case last_rejection_reason c of
         None \<Rightarrow> []
       | Some why \<Rightarrow> [CHR 10] @ ''- Last booking attempt failed because: '' @ why) @
      (case last_successful_booking c of
         None \<Rightarrow> []
       | Some b \<Rightarrow> [CHR 10] @ ''- User successfully booked an appointment (ID: ''
                    @ show_nat (bm_appointment_id b) @ '') with '' @ bm_doctor_name b
                    @ '' on '' @ bm_date b @ '' at '' @ bm_time b @ ''.''))"

text \<open>
  \<^verbatim>\<open>get_context_for_prompt(session_id, patient_email, db)\<close>: no e-mail gives no context, and
  the row is looked up by both keys (the spec's \<open>renderSummary\<close>, which degrades to the empty
  string when no context exists).
\<close>

definition get_context_for_prompt :: "string \<Rightarrow> string option \<Rightarrow> contexts_table \<Rightarrow> string" where
  "get_context_for_prompt s e tbl =
     (case e of
        None \<Rightarrow> []
      | Some em \<Rightarrow>
          if em = [] then []
          else (case query_first s em tbl of None \<Rightarrow> [] | Some r \<Rightarrow> render_context r))"

text \<open>
  The constraints of the table. The unique index on \<^verbatim>\<open>(session_id, patient_email)\<close> is the
  one SECURITY_USER_ISOLATION.md creates; in a unique index two NULLs are distinct, so rows
  without \<^verbatim>\<open>patient_email\<close> never collide in it. The earlier schema also declares
  \<^verbatim>\<open>session_id VARCHAR(255) UNIQUE NOT NULL\<close>; whether the deployed table still carries that
  column constraint is not in the sources, so it is the parameter \<open>uq\<close>.
\<close>

definition insert_context :: "bool \<Rightarrow> conversation_context \<Rightarrow> contexts_table \<Rightarrow> py_exn + contexts_table" where
  "insert_context uq r tbl =
     (if list_ex (\<lambda>x. session_id x = session_id r \<and> patient_email x \<noteq> None
                      \<and> patient_email x = patient_email r) tbl
      then Inl (IntegrityError ''idx_session_user'')
      else if uq \<and> list_ex (\<lambda>x. session_id x = session_id r) tbl
      then Inl (IntegrityError ''conversation_contexts_session_id_key'')
      else Inr (tbl @ [r]))"

text \<open>A context expires 24 hours after its last update.\<close>

definition ttl_seconds :: nat where
  "ttl_seconds = 24 * 60 * 60"

text \<open>Modelled from the spec: the context document of a pair that has recorded nothing yet.\<close>

definition empty_json :: context_json where
  "empty_json = \<lparr>selected_doctor = None, attempted_dates = [], last_rejection_reason = None,
                  rejection_history = [], last_successful_booking = None\<rparr>"

text \<open>Modelled from the spec: the row that the first reference to a pair creates.\<close>

definition new_context :: "string \<Rightarrow> string \<Rightarrow> nat \<Rightarrow> conversation_context" where
  "new_context s e now =
     \<lparr>session_id = s, patient_email = Some e, context_data = empty_json, last_message = None,
      last_response = None, message_count = 0, created_at = now, updated_at = now,
      expires_at = now + ttl_seconds\<rparr>"

text \<open>
  Of the mutating methods of \<^verbatim>\<open>backend/utils/conversation_memory.py\<close> the sources print the
  names, the signatures and the guard
  \<^verbatim>\<open>
    if not patient_email:
        raise ValueError("patient_email is required for user isolation")
  \<close>
  Their bodies follow the specification of the memory store.
\<close>

text \<open>
  Modelled from the spec: \<open>getOrCreate\<close>, the body of \<^verbatim>\<open>get_or_create_context\<close>. The context is
  created lazily on the first reference to its pair.
\<close>

definition get_or_create_context ::
  "bool \<Rightarrow> nat \<Rightarrow> string \<Rightarrow> string option \<Rightarrow> contexts_table
     \<Rightarrow> py_exn + (conversation_context \<times> contexts_table)" where
  "get_or_create_context uq now s e tbl =
     (case e of
        None \<Rightarrow> Inl (ValueError ''patient_email is required for user isolation'')
      | Some em \<Rightarrow>
          if em = [] then Inl (ValueError ''patient_email is required for user isolation'')
          else (case query_first s em tbl of
                  Some r \<Rightarrow> Inr (r, tbl)
                | None \<Rightarrow>
                    (case insert_context uq (new_context s em now) tbl of
                       Inl x \<Rightarrow> Inl x
                     | Inr tbl' \<Rightarrow> Inr (new_context s em now, tbl'))))"

text \<open>
  Modelled from the spec: the write of one row, an \<^verbatim>\<open>UPDATE\<close> of the row of the pair (the
  first row that matches, as \<^verbatim>\<open>.first()\<close> found it), which also pushes its expiry 24 hours on.
\<close>

fun update_first :: "('a \<Rightarrow> bool) \<Rightarrow> ('a \<Rightarrow> 'a) \<Rightarrow> 'a list \<Rightarrow> 'a list" where
  "update_first P f [] = []"
| "update_first P f (x # xs) = (if P x then f x # xs else x # update_first P f xs)"

definition touch :: "nat \<Rightarrow> conversation_context \<Rightarrow> conversation_context" where
  "touch now r = r\<lparr>updated_at := now, expires_at := now + ttl_seconds\<rparr>"

text \<open>
  Modelled from the spec: the body of \<^verbatim>\<open>update_context(session_id, patient_email, updates, db)\<close>,
  which applies \<open>updates\<close> to the context document of the pair.
\<close>

definition update_context ::
  "bool \<Rightarrow> nat \<Rightarrow> string \<Rightarrow> string option \<Rightarrow> (context_json \<Rightarrow> context_json) \<Rightarrow> contexts_table
     \<Rightarrow> py_exn + contexts_table" where
  "update_context uq now s e updates tbl =
     (case get_or_create_context uq now s e tbl of
        Inl x \<Rightarrow> Inl x
      | Inr (r, tbl') \<Rightarrow>
          Inr (update_first (\<lambda>x. session_id x = session_id r \<and> patient_email x = patient_email r)
                 (\<lambda>x. touch now (x\<lparr>context_data := updates (context_data x)\<rparr>)) tbl'))"




text \<open>
  Modelled from the spec: \<open>recordTurn\<close>, the body of \<^verbatim>\<open>update_message_count\<close>, which counts the
  message and keeps the last user message and the last response.
\<close>

definition update_message_count ::
  "bool \<Rightarrow> nat \<Rightarrow> string \<Rightarrow> string option \<Rightarrow> string \<Rightarrow> string \<Rightarrow> contexts_table
     \<Rightarrow> py_exn + contexts_table" where
  "update_message_count uq now s e user_message ai_response tbl =
     (case get_or_create_context uq now s e tbl of
        Inl x \<Rightarrow> Inl x
      | Inr (r, tbl') \<Rightarrow>
          Inr (update_first (\<lambda>x. session_id x = session_id r \<and> patient_email x = patient_email r)
                 (\<lambda>x. touch now (x\<lparr>message_count := message_count x + 1,
                                     last_message := Some user_message,
                                     last_response := Some ai_response\<rparr>)) tbl'))"




section \<open>Appointments: conflict detection, alternatives and the guarded insert\<close>

text \<open>
  The tables \<^verbatim>\<open>doctors\<close> and \<^verbatim>\<open>appointments\<close> of the database schema, with the columns the
  validator reads. A \<^verbatim>\<open>TIME\<close> is a number of minutes since midnight. \<^verbatim>\<open>status\<close> is one of
  scheduled, completed, cancelled, no-show.
\<close>

record doctor =
  doc_id :: nat
  doc_name :: string
  available_days :: "string list"
  available_start_time :: nat
  available_end_time :: nat
  slot_duration_minutes :: nat

record appointment =
  appt_id :: nat
  patient_id :: nat
  doctor_id :: nat
  appointment_date :: py_date
  appointment_time :: nat
  duration_minutes :: nat
  status :: string

type_synonym appointments_table = "appointment list"

text \<open>
  The overlap query reads \<^verbatim>\<open>Appointment.appointment_end_time\<close>, which is not a column of the
  table: it is the start plus the duration of the row.
\<close>

definition appointment_end_time :: "appointment \<Rightarrow> nat" where
  "appointment_end_time a = appointment_time a + duration_minutes a"

text \<open>
  The two queries of "Double-Booking Prevention" (the final verification report):
  \<^verbatim>\<open>
    existing = db.query(Appointment).filter(
        Appointment.doctor_id == doctor_id,
        Appointment.appointment_date == appt_date,
        Appointment.appointment_time == appt_time,
        Appointment.status != 'cancelled').first()

    overlapping = db.query(Appointment).filter(
        Appointment.doctor_id == doctor_id,
        Appointment.appointment_date == appt_date,
        Appointment.appointment_time < end_time,
        Appointment.appointment_end_time > appt_time,
        Appointment.status != 'cancelled').all()
  \<close>
\<close>

definition existing :: "nat \<Rightarrow> py_date \<Rightarrow> nat \<Rightarrow> appointments_table \<Rightarrow> appointment option" where
  "existing did appt_date appt_time tbl =
     find (\<lambda>a. doctor_id a = did \<and> appointment_date a = appt_date \<and> appointment_time a = appt_time
               \<and> status a \<noteq> ''cancelled'') tbl"

definition overlapping :: "nat \<Rightarrow> py_date \<Rightarrow> nat \<Rightarrow> nat \<Rightarrow> appointments_table \<Rightarrow> appointment list" where
  "overlapping did appt_date appt_time end_time tbl =
     filter (\<lambda>a. doctor_id a = did \<and> appointment_date a = appt_date \<and> appointment_time a < end_time
                 \<and> appt_time < appointment_end_time a \<and> status a \<noteq> ''cancelled'') tbl"

text \<open>
  Modelled from the spec: the decision of \<open>checkConflict\<close>, whose code around the two queries
  is not in the sources. A slot conflicts when either query finds a row.
\<close>

definition slot_conflicts :: "nat \<Rightarrow> py_date \<Rightarrow> nat \<Rightarrow> nat \<Rightarrow> appointments_table \<Rightarrow> bool" where
  "slot_conflicts did appt_date appt_time duration tbl \<longleftrightarrow>
     existing did appt_date appt_time tbl \<noteq> None
     \<or> overlapping did appt_date appt_time (appt_time + duration) tbl \<noteq> []"

text \<open>
  Modelled from the spec: the search for alternatives, whose code is not in the sources. It
  walks the working hours of the doctor from \<^verbatim>\<open>available_start_time\<close> in steps of the slot
  duration, in chronological order, keeps a slot that lies within the hours and conflicts
  with no active booking, and stops once five are found or the day is exhausted. A slot
  duration of zero gives no walk at all.
\<close>

function walk_slots :: "(nat \<Rightarrow> bool) \<Rightarrow> nat \<Rightarrow> nat \<Rightarrow> nat \<Rightarrow> nat list \<Rightarrow> nat list" where
  "walk_slots free step end_of_day current found =
     (if step = 0 \<or> end_of_day < current + step \<or> 5 \<le> length found then found
      else walk_slots free step end_of_day (current + step)
             (if free current then found @ [current] else found))"
  by pat_completeness auto
termination
  by (relation "measure (\<lambda>(free, step, end_of_day, current, found). end_of_day - current)") auto

declare walk_slots.simps [simp del]

text \<open>
  Modelled from the spec: the alternatives for a date, the walk started at the opening time
  with nothing found yet.
\<close>

definition find_alternative_slots :: "doctor \<Rightarrow> py_date \<Rightarrow> appointments_table \<Rightarrow> nat list" where
  "find_alternative_slots d appt_date tbl =
     walk_slots (\<lambda>t. \<not> slot_conflicts (doc_id d) appt_date t (slot_duration_minutes d) tbl)
       (slot_duration_minutes d) (available_end_time d) (available_start_time d) []"

text \<open>
  Times and dates as the messages printed in the sources show them (\<^verbatim>\<open>09:30 AM\<close>,
  \<^verbatim>\<open>December 21, 2025\<close>: the formats \<^verbatim>\<open>%I:%M %p\<close> and \<^verbatim>\<open>%B %d, %Y\<close> of \<^verbatim>\<open>strftime\<close>).
\<close>

definition pad2 :: "nat \<Rightarrow> string" where
  "pad2 n = (if n < 10 then ''0'' else []) @ show_nat n"

definition format_time_12h :: "nat \<Rightarrow> string" where
  "format_time_12h t =
     (let h = t div 60 in
      pad2 (if h mod 12 = 0 then 12 else h mod 12) @ '':'' @ pad2 (t mod 60)
        @ (if h < 12 then '' AM'' else '' PM''))"

definition month_name :: "int \<Rightarrow> string" where
  "month_name m =
     (if m = 1 then ''January'' else if m = 2 then ''February'' else if m = 3 then ''March''
      else if m = 4 then ''April'' else if m = 5 then ''May'' else if m = 6 then ''June''
      else if m = 7 then ''July'' else if m = 8 then ''August'' else if m = 9 then ''September''
      else if m = 10 then ''October'' else if m = 11 then ''November'' else ''December'')"

definition format_date_long :: "py_date \<Rightarrow> string" where
  "format_date_long d = month_name (month d) @ '' '' @ pad2 (nat (day d)) @ '', '' @ show_nat (nat (year d))"

text \<open>The result of \<open>checkConflict\<close>: \<open>Ok\<close>, or a conflict with its reason and the suggested slots.\<close>

datatype conflict_result = NoConflict | Conflict string "nat list"

text \<open>
  Modelled from the spec: the reason of a conflict. The texts follow the three messages
  printed in APPOINTMENT_VALIDATION_IMPLEMENTATION.md (each lists the first three
  alternatives); with no alternative the reason says so explicitly.
\<close>

definition no_alternatives_text :: string where
  "no_alternatives_text = ''No available slots found on this date. Please try another day.''"

definition conflict_reason :: "appointment option \<Rightarrow> appointment list \<Rightarrow> py_date \<Rightarrow> nat \<Rightarrow> nat list \<Rightarrow> string" where
  "conflict_reason exact over appt_date appt_time slots =
     (case exact of
        Some a \<Rightarrow>
          if slots = [] then ''This time slot is already booked. '' @ no_alternatives_text
          else ''This time slot ('' @ format_time_12h appt_time @ '') is already booked. Available slots on ''
               @ format_date_long appt_date @ '': '' @ join '', '' (map format_time_12h (take 3 slots)) @ ''.''
      | None \<Rightarrow>
          ''This time slot overlaps with another appointment''
          @ (case over of
               [] \<Rightarrow> []
             | b # bs \<Rightarrow> '' ('' @ format_time_12h (appointment_time b) @ '' - ''
                          @ format_time_12h (appointment_end_time b) @ '')'')
          @ ''. ''
          @ (if slots = [] then no_alternatives_text
             else ''Try these times: '' @ join '', '' (map format_time_12h (take 3 slots)) @ ''.''))"

text \<open>
  Modelled from the spec: \<open>checkConflict\<close>, which joins the two queries and, on a conflict,
  attaches the alternatives.
\<close>

definition check_conflict :: "py_date \<Rightarrow> nat \<Rightarrow> nat \<Rightarrow> doctor \<Rightarrow> appointments_table \<Rightarrow> conflict_result" where
  "check_conflict appt_date appt_time duration d tbl =
     (let exact = existing (doc_id d) appt_date appt_time tbl;
          over = overlapping (doc_id d) appt_date appt_time (appt_time + duration) tbl
      in if exact \<noteq> None \<or> over \<noteq> []
         then (let slots = find_alternative_slots d appt_date tbl
               in Conflict (conflict_reason exact over appt_date appt_time slots) slots)
         else NoConflict)"

text \<open>
  The result of \<open>validateComplete\<close>: valid, or invalid with the error type (\<^verbatim>\<open>date\<close>, \<^verbatim>\<open>time\<close> or
  \<^verbatim>\<open>conflict\<close>), the reason and the suggested slots.
\<close>

datatype validation = Valid | Invalid string string "nat list"

text \<open>
  Modelled from the spec: \<open>validateTime\<close>, which rejects a time outside the half-open working
  hours; the reason is the message printed in the sources.
\<close>

definition validate_time :: "nat \<Rightarrow> doctor \<Rightarrow> string option" where
  "validate_time appt_time d =
     (if available_start_time d \<le> appt_time \<and> appt_time < available_end_time d then None
      else Some (''The requested time '' @ format_time_12h appt_time @ '' is outside '' @ doc_name d
                 @ [CHR 39] @ ''s working hours ('' @ format_time_12h (available_start_time d) @ '' - ''
                 @ format_time_12h (available_end_time d)
                 @ ''). Please select a time within these hours.''))"

text \<open>
  Modelled from the spec: \<open>validateComplete\<close>, which runs date, time and conflict in that order
  and stops at the first failure. The date validator of \<^verbatim>\<open>AppointmentValidator\<close> (past dates,
  horizon, holidays, working days) is not in the sources and reads no table, so its verdict
  on the requested date is the parameter \<open>date_error\<close>: \<open>None\<close> when the date is accepted, the
  reason otherwise.
\<close>

definition validate_complete_appointment ::
  "string option \<Rightarrow> doctor \<Rightarrow> py_date \<Rightarrow> nat \<Rightarrow> appointments_table \<Rightarrow> validation" where
  "validate_complete_appointment date_error d appt_date appt_time tbl =
     (case date_error of
        Some why \<Rightarrow> Invalid ''date'' why []
      | None \<Rightarrow>
          (case validate_time appt_time d of
             Some why \<Rightarrow> Invalid ''time'' why []
           | None \<Rightarrow>
               (case check_conflict appt_date appt_time (slot_duration_minutes d) d tbl of
                  Conflict why slots \<Rightarrow> Invalid ''conflict'' why slots
                | NoConflict \<Rightarrow> Valid)))"

text \<open>
  The insert. The table declares \<^verbatim>\<open>UNIQUE(doctor_id, appointment_date, appointment_time)\<close>,
  with no condition on \<^verbatim>\<open>status\<close>: a row of any status occupies its key. \<^verbatim>\<open>id\<close> is a serial.
\<close>

definition same_slot :: "appointment \<Rightarrow> appointment \<Rightarrow> bool" where
  "same_slot a b \<longleftrightarrow>
     doctor_id a = doctor_id b \<and> appointment_date a = appointment_date b
     \<and> appointment_time a = appointment_time b"

definition next_id :: "appointments_table \<Rightarrow> nat" where
  "next_id tbl = Suc (fold max (map appt_id tbl) 0)"

definition unique_violation_text :: string where
  "unique_violation_text =
     ''duplicate key value violates unique constraint appointments_doctor_id_appointment_date_appointment_time_key''"

definition insert_appointment :: "appointment \<Rightarrow> appointments_table \<Rightarrow> py_exn + (appointment \<times> appointments_table)" where
  "insert_appointment a tbl =
     (if list_ex (same_slot a) tbl then Inl (IntegrityError unique_violation_text)
      else (let row = a\<lparr>appt_id := next_id tbl\<rparr> in Inr (row, tbl @ [row])))"

text \<open>
  The booking function: validate, then insert the new row as \<^verbatim>\<open>scheduled\<close>. Its answers are
  the three dictionaries of the sources:
  \<^verbatim>\<open>{"success": True, "appointment_id": ...}\<close>,
  \<^verbatim>\<open>{"success": False, "error": ..., "error_type": ..., "suggested_slots": [...]}\<close> and, from
  \<^verbatim>\<open>
    try:
        db.add(appointment)
        db.commit()
    except Exception as e:
        db.rollback()
        return {"success": False, "error": str(e)}
  \<close>
  the bare \<^verbatim>\<open>{"success": False, "error": str(e)}\<close>.
\<close>

datatype booking_response =
    Booked nat
  | Rejected string string "nat list"
  | DatabaseError string

fun exn_text :: "py_exn \<Rightarrow> string" where
  "exn_text (ValidationError m) = m"
| "exn_text (ValueError m) = m"
| "exn_text (HTTPException c m) = m"
| "exn_text (IntegrityError m) = m"

definition new_appointment :: "nat \<Rightarrow> doctor \<Rightarrow> py_date \<Rightarrow> nat \<Rightarrow> appointment" where
  "new_appointment patient d appt_date appt_time =
     \<lparr>appt_id = 0, patient_id = patient, doctor_id = doc_id d, appointment_date = appt_date,
      appointment_time = appt_time, duration_minutes = slot_duration_minutes d,
      status = ''scheduled''\<rparr>"

definition commit_appointment ::
  "nat \<Rightarrow> doctor \<Rightarrow> py_date \<Rightarrow> nat \<Rightarrow> appointments_table \<Rightarrow> booking_response \<times> appointments_table" where
  "commit_appointment patient d appt_date appt_time tbl =
     (case insert_appointment (new_appointment patient d appt_date appt_time) tbl of
        Inl e \<Rightarrow> (DatabaseError (exn_text e), tbl)
      | Inr (row, tbl') \<Rightarrow> (Booked (appt_id row), tbl'))"

definition book_appointment ::
  "string option \<Rightarrow> nat \<Rightarrow> doctor \<Rightarrow> py_date \<Rightarrow> nat \<Rightarrow> appointments_table
     \<Rightarrow> booking_response \<times> appointments_table" where
  "book_appointment date_error patient d appt_date appt_time tbl =
     (case validate_complete_appointment date_error d appt_date appt_time tbl of
        Invalid ty why slots \<Rightarrow> (Rejected ty why slots, tbl)
      | Valid \<Rightarrow> commit_appointment patient d appt_date appt_time tbl)"

text \<open>
  Concurrent attempts. Each request runs one pass of the booking function; what the
  requests share is the table, which they touch twice: the queries of the validation and
  the insert. A schedule is the order in which these steps of the attempts reach the
  database; an attempt named again after it has answered does nothing.
\<close>

datatype phase = Pending | Validated | Done booking_response

record attempt =
  patient :: nat
  phase :: phase

record world =
  table :: appointments_table
  attempts :: "attempt list"

definition advance :: "string option \<Rightarrow> doctor \<Rightarrow> py_date \<Rightarrow> nat \<Rightarrow> nat \<Rightarrow> world \<Rightarrow> world" where
  "advance date_error d appt_date appt_time i w =
     (if length (attempts w) \<le> i then w
      else (let a = attempts w ! i in
        case phase a of
          Pending \<Rightarrow>
            (case validate_complete_appointment date_error d appt_date appt_time (table w) of
               Invalid ty why slots \<Rightarrow>
                 w\<lparr>attempts := (attempts w)[i := a\<lparr>phase := Done (Rejected ty why slots)\<rparr>]\<rparr>
             | Valid \<Rightarrow> w\<lparr>attempts := (attempts w)[i := a\<lparr>phase := Validated\<rparr>]\<rparr>)
        | Validated \<Rightarrow>
            (case commit_appointment (patient a) d appt_date appt_time (table w) of
               (r, tbl') \<Rightarrow> w\<lparr>table := tbl', attempts := (attempts w)[i := a\<lparr>phase := Done r\<rparr>]\<rparr>)
        | Done r \<Rightarrow> w))"

definition run_schedule :: "string option \<Rightarrow> doctor \<Rightarrow> py_date \<Rightarrow> nat \<Rightarrow> nat list \<Rightarrow> world \<Rightarrow> world" where
  "run_schedule date_error d appt_date appt_time schedule w =
     fold (advance date_error d appt_date appt_time) schedule w"

definition start_world :: "appointments_table \<Rightarrow> nat list \<Rightarrow> world" where
  "start_world tbl patients = \<lparr>table = tbl, attempts = map (\<lambda>p. \<lparr>patient = p, phase = Pending\<rparr>) patients\<rparr>"

text \<open>The race of the patients \<open>patients\<close> for one slot whose date is accepted, under a schedule.\<close>

definition race :: "doctor \<Rightarrow> py_date \<Rightarrow> nat \<Rightarrow> appointments_table \<Rightarrow> nat list \<Rightarrow> nat list \<Rightarrow> world" where
  "race d appt_date appt_time tbl patients schedule =
     run_schedule None d appt_date appt_time schedule (start_world tbl patients)"

fun is_booked :: "attempt \<Rightarrow> bool" where
  "is_booked a = (case phase a of Done (Booked n) \<Rightarrow> True | _ \<Rightarrow> False)"

fun is_conflict_response :: "attempt \<Rightarrow> bool" where
  "is_conflict_response a =
     (case phase a of Done (Rejected ty why slots) \<Rightarrow> ty = ''conflict'' | _ \<Rightarrow> False)"

fun is_done :: "attempt \<Rightarrow> bool" where
  "is_done a = (case phase a of Done r \<Rightarrow> True | _ \<Rightarrow> False)"

section \<open>The agent: chat endpoint, \<^verbatim>\<open>process_message\<close> and the tool loop\<close>

text \<open>
  The dictionaries of \<^verbatim>\<open>backend/agents/orchestrator.py\<close>. A tool call comes from the language
  model with its identifier; a tool result carries that identifier, the tool's name and the
  result, of which the synthesis reads \<^verbatim>\<open>success\<close> and \<^verbatim>\<open>doctors\<close> and which \<^verbatim>\<open>json.dumps\<close> turns
  into the text \<open>rd_json\<close>. In a response of the model, no content (absent, \<^verbatim>\<open>None\<close> or empty)
  is the empty string and no tool calls (absent, \<^verbatim>\<open>None\<close> or empty) is the empty list: Python's
  \<^verbatim>\<open>not\<close> makes no difference between them.
\<close>

record tool_call =
  tc_id :: string
  tc_name :: string
  tc_arguments :: string

record doctor_entry =
  de_name :: string
  de_specialization :: string
  de_available_days :: "string list"

record result_data =
  rd_success :: bool
  rd_doctors :: "doctor_entry list"
  rd_json :: string

record tool_result =
  tool_call_id :: string
  tool_name :: string
  result :: result_data

record message =
  role :: string
  msg_tool_call_id :: "string option"
  msg_name :: "string option"
  msg_content :: string

record llm_response =
  llm_content :: string
  llm_tool_calls :: "tool_call list"

text \<open>
  The database session \<^verbatim>\<open>db\<close>: the two tables, the column constraint of the earlier schema
  (see \<open>insert_context\<close>) and, for the properties, the list of the accesses that
  \<^verbatim>\<open>process_message\<close> makes to the conversation memory.
\<close>

datatype memory_access = MemoryRead string "string option" | MemoryWrite string "string option"

record database =
  contexts :: contexts_table
  appointments :: appointments_table
  session_id_unique :: bool
  memory_log :: "memory_access list"

text \<open>
  The agent object \<^verbatim>\<open>self\<close>. The language model is outside the program: \<open>call_llm self n msgs\<close>
  is its answer to the \<open>n\<close>-th call of the request, made with the messages \<open>msgs\<close>, so that
  every sequence of answers is some \<open>call_llm\<close>. \<open>invoke_tool\<close> is the tool registry with
  its handlers (a handler's exception comes back as a result, never as an exception) and
  \<open>format_other\<close> is what the synthesis prints for the tools whose branches the sources
  leave out.
\<close>

record agent =
  max_iterations :: nat
  call_llm :: "nat \<Rightarrow> message list \<Rightarrow> llm_response"
  invoke_tool :: "tool_call \<Rightarrow> database \<Rightarrow> result_data \<times> database"
  format_other :: "tool_result \<Rightarrow> string"
  system_prompt :: "string \<Rightarrow> string"

definition default_max_iterations :: nat where
  "default_max_iterations = 5"

text \<open>
  \<^verbatim>\<open>_synthesize_final_response(self, messages, tool_results)\<close>. Python hands the list
  \<^verbatim>\<open>messages\<close> over by reference, so the function returns it along with the text: the fixed
  version reads the tool results and leaves the messages as they are. The branch printed in
  the sources is the one of \<^verbatim>\<open>list_doctors\<close>:
  \<^verbatim>\<open>
    elif tool_name == "list_doctors":
        if result_data.get("success"):
            doctors = result_data.get("doctors", [])
            doctor_count = len(doctors)
            doctor_word = "doctor" if doctor_count == 1 else "doctors"
            final_response += f"We have {doctor_count} {doctor_word} available:\n\n"
            for doc in doctors:
                final_response += f"(bullet) {doc['name']} - {doc['specialization']}\n"
                if doc.get('available_days'):
                    final_response += f"  Available: {', '.join(doc['available_days'][:3])}\n"
  \<close>
  (the bullet is U+2022, three bytes in UTF-8).
\<close>

definition format_doctor :: "doctor_entry \<Rightarrow> string" where
  "format_doctor doc =
     [CHR 0xE2, CHR 0x80, CHR 0xA2] @ '' '' @ de_name doc @ '' - '' @ de_specialization doc @ [CHR 10]
     @ (if de_available_days doc = [] then []
        else ''  Available: '' @ join '', '' (take 3 (de_available_days doc)) @ [CHR 10])"

definition format_list_doctors :: "result_data \<Rightarrow> string" where
  "format_list_doctors result_data =
     (if rd_success result_data
      then (let doctors = rd_doctors result_data;
                doctor_count = length doctors;
                doctor_word = (if doctor_count = 1 then ''doctor'' else ''doctors'')
            in ''We have '' @ show_nat doctor_count @ '' '' @ doctor_word @ '' available:'' @ [CHR 10, CHR 10]
               @ concat (map format_doctor doctors))
      else [])"

definition synthesize_final_response ::
  "agent \<Rightarrow> message list \<Rightarrow> tool_result list \<Rightarrow> message list \<times> string" where
  "synthesize_final_response self messages tool_results =
     (messages,
      concat (map (\<lambda>tr. if tool_name tr = ''list_doctors'' then format_list_doctors (result tr)
                         else format_other self tr) tool_results))"

text \<open>
  The state of one run of the loop: the counter \<^verbatim>\<open>iteration\<close>, the transcript \<^verbatim>\<open>llm_messages\<close>,
  the list \<^verbatim>\<open>all_tool_results\<close>, the session's message history (\<^verbatim>\<open>context.add_message\<close>), the
  database, and the number of calls made to the language model so far.
\<close>

record loop_state =
  iteration :: nat
  llm_messages :: "message list"
  all_tool_results :: "tool_result list"
  conversation :: "(string \<times> string) list"
  db :: database
  llm_calls :: nat

record envelope =
  success :: bool
  response :: string
  tool_calls_made :: nat
  iterations :: nat
  warning :: "string option"
  error :: "string option"

text \<open>
  Modelled from the spec: the execution of the requested tool calls, which the sources
  abbreviate as "Execute tool calls and add to messages". The calls are run through the
  registry one at a time in the order the model asked for them, and each result keeps the
  identifier of its call.
\<close>

fun execute_tools :: "agent \<Rightarrow> tool_call list \<Rightarrow> database \<Rightarrow> tool_result list \<times> database" where
  "execute_tools self [] d = ([], d)"
| "execute_tools self (tc # tcs) d =
     (case invoke_tool self tc d of
        (r, d1) \<Rightarrow>
          (case execute_tools self tcs d1 of
             (rs, d2) \<Rightarrow> (\<lparr>tool_call_id = tc_id tc, tool_name = tc_name tc, result = r\<rparr> # rs, d2)))"

text \<open>
  The loop the sources do print adds the results to the transcript and to the list of all
  results:
  \<^verbatim>\<open>
    for tool_result in tool_results:
        llm_messages.append({
            "role": "tool",
            "tool_call_id": tool_result["tool_call_id"],
            "name": tool_result["tool_name"],
            "content": json.dumps(tool_result["result"])})
  \<close>
\<close>

definition tool_message :: "tool_result \<Rightarrow> message" where
  "tool_message tr =
     \<lparr>role = ''tool'', msg_tool_call_id = Some (tool_call_id tr), msg_name = Some (tool_name tr),
      msg_content = rd_json (result tr)\<rparr>"

definition run_tools :: "agent \<Rightarrow> tool_call list \<Rightarrow> loop_state \<Rightarrow> loop_state" where
  "run_tools self tool_calls st =
     (case execute_tools self tool_calls (db st) of
        (tool_results, d) \<Rightarrow>
          st\<lparr>all_tool_results := all_tool_results st @ tool_results,
             llm_messages := llm_messages st @ map tool_message tool_results,
             db := d\<rparr>)"

text \<open>The return inside the loop, taken when the model asks for no tool.\<close>

definition final_answer :: "agent \<Rightarrow> llm_response \<Rightarrow> loop_state \<Rightarrow> envelope \<times> loop_state" where
  "final_answer self llm_response st =
     (case (if llm_content llm_response = [] \<and> all_tool_results st \<noteq> []
            then synthesize_final_response self (llm_messages st) (all_tool_results st)
            else (llm_messages st, llm_content llm_response)) of
        (messages, final_content) \<Rightarrow>
          (\<lparr>success = True, response = final_content,
            tool_calls_made = length (all_tool_results st), iterations = iteration st,
            warning = None, error = None\<rparr>,
           st\<lparr>llm_messages := messages,
              conversation := conversation st @ [(''assistant'', final_content)]\<rparr>))"

text \<open>The code after the loop, reached when \<^verbatim>\<open>iteration < max_iterations\<close> fails.\<close>

definition max_iterations_warning :: string where
  "max_iterations_warning = ''Max iterations reached - LLM may not be responding properly''"

definition unable_to_process :: string where
  "unable_to_process =
     ''I apologize, but I'' @ [CHR 39] @ ''m having trouble processing your request. Please try again.''"

definition after_max_iterations :: "agent \<Rightarrow> loop_state \<Rightarrow> envelope \<times> loop_state" where
  "after_max_iterations self st =
     (if all_tool_results st \<noteq> []
      then (case synthesize_final_response self (llm_messages st) (all_tool_results st) of
              (messages, final_response) \<Rightarrow>
                (\<lparr>success = True, response = final_response,
                  tool_calls_made = length (all_tool_results st), iterations = iteration st,
                  warning = Some max_iterations_warning, error = None\<rparr>,
                 st\<lparr>llm_messages := messages,
                    conversation := conversation st @ [(''assistant'', final_response)]\<rparr>))
      else (\<lparr>success = False, response = unable_to_process, tool_calls_made = 0,
             iterations = iteration st, warning = None,
             error = Some ''Max iterations reached without results''\<rparr>, st))"

text \<open>
  The loop,
  \<^verbatim>\<open>
    while iteration < max_iterations:
        iteration += 1
        llm_response = self._call_llm(messages=llm_messages, tools=tools, tool_choice="auto")
        tool_calls = llm_response.get("tool_calls")
        if not tool_calls:
            ...
            return {...}
        # Execute tool calls and add to messages...
    # If we hit max iterations, synthesize response from available results
    ...
  \<close>
\<close>

function agent_loop :: "agent \<Rightarrow> loop_state \<Rightarrow> envelope \<times> loop_state" where
  "agent_loop self st =
     (if iteration st < max_iterations self
      then (if llm_tool_calls (call_llm self (llm_calls st) (llm_messages st)) = []
            then final_answer self (call_llm self (llm_calls st) (llm_messages st))
                   (st\<lparr>iteration := iteration st + 1, llm_calls := llm_calls st + 1\<rparr>)
            else agent_loop self
                   (run_tools self (llm_tool_calls (call_llm self (llm_calls st) (llm_messages st)))
                      (st\<lparr>iteration := iteration st + 1, llm_calls := llm_calls st + 1\<rparr>)))
      else after_max_iterations self st)"
  by pat_completeness auto
termination
  by (relation "measure (\<lambda>(self, st). max_iterations self - iteration st)")
     (auto simp: run_tools_def split: prod.splits)

declare agent_loop.simps [simp del]

text \<open>
  \<^verbatim>\<open>process_message\<close>: the guard on \<^verbatim>\<open>user_email\<close>, the memory summary for the prompt, the loop,
  and the turn written back to the memory. A failure of the memory is logged and not shown
  to the user, so a write that raises leaves the table as it was.
\<close>

definition read_memory :: "string \<Rightarrow> string option \<Rightarrow> database \<Rightarrow> string \<times> database" where
  "read_memory s e d =
     (get_context_for_prompt s e (contexts d), d\<lparr>memory_log := memory_log d @ [MemoryRead s e]\<rparr>)"

definition write_turn :: "nat \<Rightarrow> string \<Rightarrow> string option \<Rightarrow> string \<Rightarrow> string \<Rightarrow> database \<Rightarrow> database" where
  "write_turn now s e user_message final_response d =
     d\<lparr>contexts := (case update_message_count (session_id_unique d) now s e user_message final_response
                                (contexts d) of
                      Inl x \<Rightarrow> contexts d
                    | Inr tbl \<Rightarrow> tbl),
       memory_log := memory_log d @ [MemoryWrite s e]\<rparr>"

definition initial_state :: "agent \<Rightarrow> string \<Rightarrow> string \<Rightarrow> database \<Rightarrow> loop_state" where
  "initial_state self memory_context user_message d =
     \<lparr>iteration = 0,
      llm_messages =
        [\<lparr>role = ''system'', msg_tool_call_id = None, msg_name = None,
          msg_content = system_prompt self memory_context\<rparr>,
         \<lparr>role = ''user'', msg_tool_call_id = None, msg_name = None, msg_content = user_message\<rparr>],
      all_tool_results = [], conversation = [(''user'', user_message)], db = d, llm_calls = 0\<rparr>"

definition process_message ::
  "agent \<Rightarrow> nat \<Rightarrow> string \<Rightarrow> string option \<Rightarrow> string \<Rightarrow> database \<Rightarrow> (py_exn + envelope) \<times> database" where
  "process_message self now sid user_email user_message d =
     (if falsy user_email
      then (Inl (ValueError ''user_email is required for conversation isolation''), d)
      else (case read_memory sid user_email d of
              (memory_context, d1) \<Rightarrow>
                (case agent_loop self (initial_state self memory_context user_message d1) of
                   (env, st) \<Rightarrow>
                     (Inr env, write_turn now sid user_email user_message (response env) (db st)))))"

text \<open>
  The run of the loop that \<^verbatim>\<open>process_message\<close> starts for an accepted request, for the
  properties that speak of the transcript and of the calls to the model, which the function
  does not return.
\<close>

definition loop_run :: "agent \<Rightarrow> string \<Rightarrow> string option \<Rightarrow> string \<Rightarrow> database \<Rightarrow> envelope \<times> loop_state" where
  "loop_run self sid user_email user_message d =
     (case read_memory sid user_email d of
        (memory_context, d1) \<Rightarrow> agent_loop self (initial_state self memory_context user_message d1))"

text \<open>
  The endpoint \<^verbatim>\<open>POST /api/chat\<close>:
  \<^verbatim>\<open>
    if not message.user_email or not message.user_email.strip():
        raise HTTPException(status_code=status.HTTP_400_BAD_REQUEST,
                            detail="user_email is required for conversation isolation")
    result = await agent.process_message(session_id=session_id, user_email=message.user_email,
                                         user_message=message.message, db=db)
  \<close>
  A request without a session identifier gets a fresh one, \<open>fresh\<close>.

  \<^verbatim>\<open>str.strip()\<close> removes the white space at both ends. A Python string is a sequence of
  Unicode characters and a string here is the list of the bytes of its UTF-8 encoding, so
  white space is recognised by its encoding. The characters for which \<^verbatim>\<open>str.isspace()\<close> holds
  are U+0009 to U+000D, U+001C to U+0020 (one byte each), U+0085 and U+00A0 (C2 85, C2 A0),
  U+1680 (E1 9A 80), U+2000 to U+200A, U+2028, U+2029 and U+202F (E2 80 80 to 8A, A8, A9,
  AF), U+205F (E2 81 9F) and U+3000 (E3 80 80).
\<close>

definition one_byte_space :: "nat \<Rightarrow> bool" where
  "one_byte_space a \<longleftrightarrow> (9 \<le> a \<and> a \<le> 13) \<or> (28 \<le> a \<and> a \<le> 32)"

definition two_byte_space :: "nat \<Rightarrow> nat \<Rightarrow> bool" where
  "two_byte_space a b \<longleftrightarrow> a = 0xC2 \<and> (b = 0x85 \<or> b = 0xA0)"

definition three_byte_space :: "nat \<Rightarrow> nat \<Rightarrow> nat \<Rightarrow> bool" where
  "three_byte_space a b c \<longleftrightarrow>
     (a = 0xE1 \<and> b = 0x9A \<and> c = 0x80)
     \<or> (a = 0xE2 \<and> b = 0x80 \<and> ((0x80 \<le> c \<and> c \<le> 0x8A) \<or> c = 0xA8 \<or> c = 0xA9 \<or> c = 0xAF))
     \<or> (a = 0xE2 \<and> b = 0x81 \<and> c = 0x9F)
     \<or> (a = 0xE3 \<and> b = 0x80 \<and> c = 0x80)"

text \<open>The number of bytes of the white-space character a string starts with, 0 if it starts with none.\<close>

definition space_at_front :: "string \<Rightarrow> nat" where
  "space_at_front s =
     (case map of_char s of
        [] \<Rightarrow> 0
      | a # bs \<Rightarrow>
          if one_byte_space a then 1
          else (case bs of
                  [] \<Rightarrow> 0
                | b # cs \<Rightarrow>
                    if two_byte_space a b then 2
                    else (case cs of
                            [] \<Rightarrow> 0
                          | c # ds \<Rightarrow> if three_byte_space a b c then 3 else 0)))"

text \<open>The same for the character a string ends with: its bytes are read from the last one backwards.\<close>

definition space_at_back :: "string \<Rightarrow> nat" where
  "space_at_back s =
     (case map of_char (rev s) of
        [] \<Rightarrow> 0
      | a # bs \<Rightarrow>
          if one_byte_space a then 1
          else (case bs of
                  [] \<Rightarrow> 0
                | b # cs \<Rightarrow>
                    if two_byte_space b a then 2
                    else (case cs of
                            [] \<Rightarrow> 0
                          | c # ds \<Rightarrow> if three_byte_space c b a then 3 else 0)))"

function lstrip :: "string \<Rightarrow> string" where
  "lstrip s = (if space_at_front s = 0 then s else lstrip (drop (space_at_front s) s))"
  by pat_completeness auto
termination
  by (relation "measure length") (auto simp: space_at_front_def split: list.splits)

declare lstrip.simps [simp del]

function rstrip :: "string \<Rightarrow> string" where
  "rstrip s = (if space_at_back s = 0 then s else rstrip (take (length s - space_at_back s) s))"
  by pat_completeness auto
termination
  by (relation "measure length") (auto simp: space_at_back_def split: list.splits)

declare rstrip.simps [simp del]

definition strip :: "string \<Rightarrow> string" where
  "strip s = rstrip (lstrip s)"

record chat_message =
  cm_session_id :: "string option"
  cm_message :: string
  cm_user_type :: string
  cm_user_email :: "string option"

definition chat ::
  "agent \<Rightarrow> nat \<Rightarrow> string \<Rightarrow> chat_message \<Rightarrow> database \<Rightarrow> (py_exn + envelope) \<times> database" where
  "chat self now fresh message d =
     (if falsy (cm_user_email message) \<or> falsy (map_option strip (cm_user_email message))
      then (Inl (HTTPException 400 ''user_email is required for conversation isolation''), d)
      else process_message self now
             (case cm_session_id message of None \<Rightarrow> fresh | Some s \<Rightarrow> if s = [] then fresh else s)
             (cm_user_email message) (cm_message message) d)"

section \<open>Notions of the specification\<close>

text \<open>
  The comparison set and the conflict of the specification, in its words: the active
  bookings of the provider on the date, and a requested slot that starts where one of them
  starts or whose interval \<open>[start, start + duration)\<close> meets the interval of one of them.
\<close>

definition comparison_set :: "nat \<Rightarrow> py_date \<Rightarrow> appointments_table \<Rightarrow> appointment set" where
  "comparison_set did appt_date tbl =
     {b \<in> set tbl. doctor_id b = did \<and> appointment_date b = appt_date \<and> status b \<noteq> ''cancelled''}"

definition spec_conflicts :: "nat \<Rightarrow> py_date \<Rightarrow> nat \<Rightarrow> nat \<Rightarrow> appointments_table \<Rightarrow> bool" where
  "spec_conflicts did appt_date appt_time duration tbl \<longleftrightarrow>
     (\<exists>b \<in> comparison_set did appt_date tbl.
        appointment_time b = appt_time
        \<or> {appt_time ..< appt_time + duration}
            \<inter> {appointment_time b ..< appointment_time b + duration_minutes b} \<noteq> {})"

text \<open>The slots of a working day in chronological order: every start whose slot ends within the hours.\<close>

definition slot_starts :: "nat \<Rightarrow> nat \<Rightarrow> nat \<Rightarrow> nat list" where
  "slot_starts start end_of_day step = map (\<lambda>k. start + k * step) [0 ..< (end_of_day - start) div step]"



text \<open>
  A blank identifier: nothing but white-space characters, each given by its UTF-8 encoding.
\<close>

definition unicode_spaces :: "string list" where
  "unicode_spaces =
     [[CHR 0x09], [CHR 0x0A], [CHR 0x0B], [CHR 0x0C], [CHR 0x0D],
      [CHR 0x1C], [CHR 0x1D], [CHR 0x1E], [CHR 0x1F], [CHR 0x20],
      [CHR 0xC2, CHR 0x85], [CHR 0xC2, CHR 0xA0],
      [CHR 0xE1, CHR 0x9A, CHR 0x80],
      [CHR 0xE2, CHR 0x80, CHR 0x80], [CHR 0xE2, CHR 0x80, CHR 0x81], [CHR 0xE2, CHR 0x80, CHR 0x82],
      [CHR 0xE2, CHR 0x80, CHR 0x83], [CHR 0xE2, CHR 0x80, CHR 0x84], [CHR 0xE2, CHR 0x80, CHR 0x85],
      [CHR 0xE2, CHR 0x80, CHR 0x86], [CHR 0xE2, CHR 0x80, CHR 0x87], [CHR 0xE2, CHR 0x80, CHR 0x88],
      [CHR 0xE2, CHR 0x80, CHR 0x89], [CHR 0xE2, CHR 0x80, CHR 0x8A],
      [CHR 0xE2, CHR 0x80, CHR 0xA8], [CHR 0xE2, CHR 0x80, CHR 0xA9], [CHR 0xE2, CHR 0x80, CHR 0xAF],
      [CHR 0xE2, CHR 0x81, CHR 0x9F],
      [CHR 0xE3, CHR 0x80, CHR 0x80]]"

function blank :: "string \<Rightarrow> bool" where
  "blank s =
     (if s = [] then True
      else list_ex (\<lambda>w. take (length w) s = w \<and> blank (drop (length w) s)) unicode_spaces)"
  by pat_completeness auto
termination
  by (relation "measure length") (auto simp: unicode_spaces_def)

declare blank.simps [simp del]

text \<open>
  The tool calls the language model sends in the course of a run, in the order it sends
  them: the calls of each answer that asks for tools, round after round, up to the cap.
\<close>

function requested_calls :: "agent \<Rightarrow> loop_state \<Rightarrow> tool_call list" where
  "requested_calls self st =
     (if iteration st < max_iterations self
      then (if llm_tool_calls (call_llm self (llm_calls st) (llm_messages st)) = [] then []
            else llm_tool_calls (call_llm self (llm_calls st) (llm_messages st))
                 @ requested_calls self
                     (run_tools self (llm_tool_calls (call_llm self (llm_calls st) (llm_messages st)))
                        (st\<lparr>iteration := iteration st + 1, llm_calls := llm_calls st + 1\<rparr>)))
      else [])"
  by pat_completeness auto
termination
  by (relation "measure (\<lambda>(self, st). max_iterations self - iteration st)")
     (auto simp: run_tools_def split: prod.splits)

declare requested_calls.simps [simp del]

text \<open>
  A result answers a call when it carries the call's identifier and name and holds what the
  handler returned for that call.
\<close>

definition answers :: "agent \<Rightarrow> tool_call \<Rightarrow> tool_result \<Rightarrow> bool" where
  "answers self tc tr \<longleftrightarrow>
     tool_call_id tr = tc_id tc \<and> tool_name tr = tc_name tc
     \<and> (\<exists>d. result tr = fst (invoke_tool self tc d))"

definition calls_sent :: "agent \<Rightarrow> string \<Rightarrow> string option \<Rightarrow> string \<Rightarrow> database \<Rightarrow> tool_call list" where
  "calls_sent self sid user_email user_message d =
     (case read_memory sid user_email d of
        (memory_context, d1) \<Rightarrow> requested_calls self (initial_state self memory_context user_message d1))"

text \<open>
  The transcript of a run: its entries of role \<^verbatim>\<open>tool\<close>, the call identifiers it holds in
  order, and the entries that carry a given identifier.
\<close>

definition tool_entries :: "message list \<Rightarrow> message list" where
  "tool_entries messages = filter (\<lambda>m. role m = ''tool'') messages"

definition transcript_call_ids :: "message list \<Rightarrow> string list" where
  "transcript_call_ids messages = List.map_filter msg_tool_call_id messages"

definition entries_for :: "string \<Rightarrow> message list \<Rightarrow> message list" where
  "entries_for call_id messages = filter (\<lambda>m. msg_tool_call_id m = Some call_id) messages"

definition transcript_ok :: "loop_state \<Rightarrow> bool" where
  "transcript_ok st \<longleftrightarrow>
     tool_entries (llm_messages st) = map tool_message (all_tool_results st)
     \<and> transcript_call_ids (llm_messages st) = map tool_call_id (all_tool_results st)"

text \<open>
  The answers an attempt on a contested slot may get: the booking, a conflict with at
  most five alternatives, each within the hours and free in the table, and with the
  explicit sentence when there is none, or the database's refusal of the duplicate key.
\<close>

definition good_answer :: "doctor \<Rightarrow> py_date \<Rightarrow> appointments_table \<Rightarrow> booking_response \<Rightarrow> bool" where
  "good_answer d appt_date tbl r =
     (case r of
        Booked n \<Rightarrow> True
      | Rejected ty why slots \<Rightarrow>
          ty = ''conflict'' \<and> length slots \<le> 5
          \<and> (slots = [] \<longrightarrow> why = ''This time slot is already booked. '' @ no_alternatives_text)
          \<and> (\<forall>s\<in>set slots. available_start_time d \<le> s
                \<and> s + slot_duration_minutes d \<le> available_end_time d
                \<and> \<not> slot_conflicts (doc_id d) appt_date s (slot_duration_minutes d) tbl)
      | DatabaseError m \<Rightarrow> m = unique_violation_text)"

text \<open>
  What holds of the world at every point of a schedule that starts on a free slot: either
  nobody has inserted yet and nobody has answered, or the table has grown by exactly one
  active row on the slot, exactly one attempt holds the booking, and every answer given is
  one of the above.
\<close>

definition race_inv :: "doctor \<Rightarrow> py_date \<Rightarrow> nat \<Rightarrow> appointments_table \<Rightarrow> world \<Rightarrow> bool" where
  "race_inv d appt_date appt_time tbl0 w \<longleftrightarrow>
     (table w = tbl0 \<and> (\<forall>a\<in>set (attempts w). phase a = Pending \<or> phase a = Validated))
     \<or> (\<exists>row. table w = tbl0 @ [row] \<and> same_slot row (new_appointment 0 d appt_date appt_time)
            \<and> status row \<noteq> ''cancelled''
            \<and> length (filter is_booked (attempts w)) = 1
            \<and> (\<forall>a\<in>set (attempts w). \<forall>r. phase a = Done r \<longrightarrow> good_answer d appt_date (table w) r))"

section \<open>The data of the scenarios\<close>

text \<open>
  The first doctor of the seed data (Monday to Friday, 09:00 to 17:00, slots of 30 minutes),
  Tuesday 23 December 2025, and a booking of that doctor on that day from 10:00 to 10:30.
\<close>

definition dr_ahuja :: doctor where
  "dr_ahuja =
     \<lparr>doc_id = 1, doc_name = ''Dr. Rajesh Ahuja'',
      available_days = [''Monday'', ''Tuesday'', ''Wednesday'', ''Thursday'', ''Friday''],
      available_start_time = 540, available_end_time = 1020, slot_duration_minutes = 30\<rparr>"

definition tuesday :: py_date where
  "tuesday = \<lparr>year = 2025, month = 12, day = 23\<rparr>"

definition booking_at_10 :: appointment where
  "booking_at_10 =
     \<lparr>appt_id = 1, patient_id = 1, doctor_id = 1, appointment_date = tuesday,
      appointment_time = 600, duration_minutes = 30, status = ''scheduled''\<rparr>"

text \<open>
  Three language models: one that asks for the doctors' list once and then answers, one
  that asks twice under the same call identifier before it answers, and one that asks for
  a tool on every round. The tool returns an empty list and leaves the database alone.
\<close>

definition list_doctors_call :: tool_call where
  "list_doctors_call = \<lparr>tc_id = ''call_1'', tc_name = ''list_doctors'', tc_arguments = ''{}''\<rparr>"

definition asks_until :: "nat \<Rightarrow> nat \<Rightarrow> message list \<Rightarrow> llm_response" where
  "asks_until k n msgs =
     (if n < k then \<lparr>llm_content = [], llm_tool_calls = [list_doctors_call]\<rparr>
      else \<lparr>llm_content = ''Here are the doctors.'', llm_tool_calls = []\<rparr>)"

definition always_asks :: "nat \<Rightarrow> message list \<Rightarrow> llm_response" where
  "always_asks n msgs = \<lparr>llm_content = [], llm_tool_calls = [list_doctors_call]\<rparr>"

definition agent_with :: "(nat \<Rightarrow> message list \<Rightarrow> llm_response) \<Rightarrow> agent" where
  "agent_with llm =
     \<lparr>max_iterations = default_max_iterations, call_llm = llm,
      invoke_tool = (\<lambda>tc d. (\<lparr>rd_success = True, rd_doctors = [], rd_json = ''{}''\<rparr>, d)),
      format_other = (\<lambda>tr. []), system_prompt = (\<lambda>memory_context. memory_context)\<rparr>"

definition empty_database :: database where
  "empty_database = \<lparr>contexts = [], appointments = [], session_id_unique = False, memory_log = []\<rparr>"



section \<open>Properties\<close>

subsection \<open>Input validation\<close>

text \<open>
  C7. The claim is that validating a date always ends in acceptance or in a validation
  rejection, whatever the current month. On 20 December 2025 the documented call
  \<^verbatim>\<open>validate_date("2025-12-25")\<close> computes \<^verbatim>\<open>replace(month=18)\<close> and leaves with Python's
  \<open>ValueError\<close>, which is neither.
\<close>

theorem validate_date_december_raises_ValueError:
  "validate_date (\<lambda>s. if s = ''2025-12-25'' then Some \<lparr>year = 2025, month = 12, day = 25\<rparr> else None)
     \<lparr>year = 2025, month = 12, day = 20\<rparr> ''2025-12-25''
   = Inl (ValueError ''month must be in 1..12'')"
  by (simp add: validate_date_def date_lt_def replace_month_def)

text \<open>
  The same holds throughout the second half of every year: from July on, a date that is
  not in the past never gets an answer of the validator. Past dates are rejected before
  the month arithmetic, in every month.
\<close>

lemma validate_date_second_half_of_year:
  assumes "strptime date_str = Some appt_date" and "\<not> date_lt appt_date today" and "7 \<le> month today"
  shows "validate_date strptime today date_str = Inl (ValueError ''month must be in 1..12'')"
  using assms by (simp add: validate_date_def replace_month_def)

lemma validate_date_past_rejected:
  assumes "strptime date_str = Some appt_date" and "date_lt appt_date today"
  shows "validate_date strptime today date_str
         = Inl (ValidationError ''Appointment date cannot be in the past'')"
  using assms by (simp add: validate_date_def)

subsection \<open>Conversation memory\<close>
































subsection \<open>The agent loop\<close>

lemma run_tools_counters [simp]:
  "iteration (run_tools self tcs st) = iteration st"
  "llm_calls (run_tools self tcs st) = llm_calls st"
  by (auto simp: run_tools_def split: prod.splits)

lemma final_answer_counters [simp]:
  "llm_calls (snd (final_answer self r st)) = llm_calls st"
  "iterations (fst (final_answer self r st)) = iteration st"
  by (auto simp: final_answer_def split: prod.splits)

lemma after_max_counters [simp]:
  "llm_calls (snd (after_max_iterations self st)) = llm_calls st"
  "iterations (fst (after_max_iterations self st)) = iteration st"
  by (auto simp: after_max_iterations_def split: prod.splits)

text \<open>Each round makes one call to the model, and the rounds left are bounded by the cap.\<close>

lemma agent_loop_calls_bound:
  "llm_calls (snd (agent_loop self st)) \<le> llm_calls st + (max_iterations self - iteration st)"
proof (induction self st rule: agent_loop.induct)
  case (1 self st)
  show ?case
  proof (cases "iteration st < max_iterations self")
    case False
    then show ?thesis by (subst agent_loop.simps) simp
  next
    case True
    show ?thesis
    proof (cases "llm_tool_calls (call_llm self (llm_calls st) (llm_messages st)) = []")
      case True
      with \<open>iteration st < max_iterations self\<close> show ?thesis
        by (subst agent_loop.simps) simp
    next
      case False
      from "1.IH"[OF \<open>iteration st < max_iterations self\<close> False]
      show ?thesis using \<open>iteration st < max_iterations self\<close> False
        by (subst agent_loop.simps) simp
    qed
  qed
qed

lemma agent_loop_iterations_are_calls:
  "llm_calls st = iteration st \<Longrightarrow>
   iterations (fst (agent_loop self st)) = llm_calls (snd (agent_loop self st))"
proof (induction self st rule: agent_loop.induct)
  case (1 self st)
  show ?case
  proof (cases "iteration st < max_iterations self")
    case False
    then show ?thesis using "1.prems" by (subst (1 2) agent_loop.simps) simp
  next
    case True
    show ?thesis
    proof (cases "llm_tool_calls (call_llm self (llm_calls st) (llm_messages st)) = []")
      case True
      with \<open>iteration st < max_iterations self\<close> show ?thesis using "1.prems"
        by (subst (1 2) agent_loop.simps) simp
    next
      case False
      from "1.IH"[OF \<open>iteration st < max_iterations self\<close> False] "1.prems"
      show ?thesis using \<open>iteration st < max_iterations self\<close> False
        by (subst (1 2) agent_loop.simps) simp
    qed
  qed
qed

lemma agent_loop_always_tools:
  "\<forall>n msgs. llm_tool_calls (call_llm self n msgs) \<noteq> [] \<Longrightarrow> iteration st \<le> max_iterations self \<Longrightarrow>
     llm_calls (snd (agent_loop self st)) = llm_calls st + (max_iterations self - iteration st)"
proof (induction self st rule: agent_loop.induct)
  case (1 self st)
  show ?case
  proof (cases "iteration st < max_iterations self")
    case False
    then show ?thesis by (subst agent_loop.simps) simp
  next
    case True
    have nt: "llm_tool_calls (call_llm self (llm_calls st) (llm_messages st)) \<noteq> []"
      using "1.prems"(1) by blast
    from "1.IH"[OF True nt "1.prems"(1)] True
    show ?thesis using nt
      by (subst agent_loop.simps) simp
  qed
qed

lemma agent_loop_exit:
  "max_iterations self \<le> iteration st \<Longrightarrow> agent_loop self st = after_max_iterations self st"
  by (subst agent_loop.simps) simp

lemma execute_tools_nonempty: "tcs \<noteq> [] \<Longrightarrow> fst (execute_tools self tcs d) \<noteq> []"
  by (cases tcs) (auto split: prod.splits)

lemma run_tools_results_nonempty:
  "tcs \<noteq> [] \<Longrightarrow> all_tool_results (run_tools self tcs st) \<noteq> []"
  using execute_tools_nonempty[of tcs self "db st"]
  by (auto simp: run_tools_def split: prod.splits)

lemma agent_loop_always_tools_warning:
  "\<forall>n msgs. llm_tool_calls (call_llm self n msgs) \<noteq> [] \<Longrightarrow>
   iteration st < max_iterations self \<or> all_tool_results st \<noteq> [] \<Longrightarrow>
   success (fst (agent_loop self st)) \<and> warning (fst (agent_loop self st)) = Some max_iterations_warning"
proof (induction self st rule: agent_loop.induct)
  case (1 self st)
  show ?case
  proof (cases "iteration st < max_iterations self")
    case False
    with "1.prems"(2) show ?thesis
      by (subst (1 2) agent_loop.simps) (simp add: after_max_iterations_def split: prod.splits)
  next
    case True
    have nt: "llm_tool_calls (call_llm self (llm_calls st) (llm_messages st)) \<noteq> []"
      using "1.prems"(1) by blast
    have "success (fst (agent_loop self (run_tools self (llm_tool_calls (call_llm self (llm_calls st) (llm_messages st)))
                      (st\<lparr>iteration := iteration st + 1, llm_calls := llm_calls st + 1\<rparr>)))) \<and>
          warning (fst (agent_loop self (run_tools self (llm_tool_calls (call_llm self (llm_calls st) (llm_messages st)))
                      (st\<lparr>iteration := iteration st + 1, llm_calls := llm_calls st + 1\<rparr>)))) = Some max_iterations_warning"
      by (rule "1.IH"[OF True nt "1.prems"(1)]) (simp add: run_tools_results_nonempty[OF nt])
    then show ?thesis using nt True
      by (subst (1 2) agent_loop.simps) simp
  qed
qed

lemma loop_run_unfold:
  "loop_run self sid e m d =
     agent_loop self (initial_state self (get_context_for_prompt sid e (contexts d)) m
                        (d\<lparr>memory_log := memory_log d @ [MemoryRead sid e]\<rparr>))"
  by (simp add: loop_run_def read_memory_def)

lemma process_message_accepts:
  "\<not> falsy e \<Longrightarrow>
   process_message self now sid e m d =
     (Inr (fst (loop_run self sid e m d)),
      write_turn now sid e m (response (fst (loop_run self sid e m d))) (db (snd (loop_run self sid e m d))))"
  by (simp add: process_message_def loop_run_def split: prod.splits)

text \<open>
  C3. Whatever the language model answers, the run of the loop that \<^verbatim>\<open>process_message\<close> starts
  ends (the loop is a total function, by its termination proof) after at most
  \<open>max_iterations + 1\<close> calls to the model, in fact after at most \<open>max_iterations\<close>, which the
  envelope reports as \<^verbatim>\<open>iterations\<close>; with the default cap of 5 that is at most 6. A model that
  asks for a tool on every round is called exactly \<open>max_iterations\<close> times. For an accepted
  request \<^verbatim>\<open>process_message\<close> returns the envelope of that run.
\<close>

theorem process_message_bounded_calls:
  "llm_calls (snd (loop_run self sid e m d)) \<le> max_iterations self + 1
   \<and> llm_calls (snd (loop_run self sid e m d)) \<le> max_iterations self
   \<and> iterations (fst (loop_run self sid e m d)) = llm_calls (snd (loop_run self sid e m d))
   \<and> (max_iterations self = default_max_iterations \<longrightarrow> llm_calls (snd (loop_run self sid e m d)) \<le> 6)
   \<and> ((\<forall>n msgs. llm_tool_calls (call_llm self n msgs) \<noteq> [])
        \<longrightarrow> llm_calls (snd (loop_run self sid e m d)) = max_iterations self)
   \<and> (\<not> falsy e \<longrightarrow> fst (process_message self now sid e m d) = Inr (fst (loop_run self sid e m d)))"
proof -
  let ?st = "initial_state self (get_context_for_prompt sid e (contexts d)) m
               (d\<lparr>memory_log := memory_log d @ [MemoryRead sid e]\<rparr>)"
  have z: "iteration ?st = 0" "llm_calls ?st = 0" by (simp_all add: initial_state_def)
  have b: "llm_calls (snd (loop_run self sid e m d)) \<le> max_iterations self"
    using agent_loop_calls_bound[of self ?st] by (simp add: loop_run_unfold z)
  have i: "iterations (fst (loop_run self sid e m d)) = llm_calls (snd (loop_run self sid e m d))"
    unfolding loop_run_unfold by (rule agent_loop_iterations_are_calls) (simp add: z)
  have a: "(\<forall>n msgs. llm_tool_calls (call_llm self n msgs) \<noteq> [])
        \<longrightarrow> llm_calls (snd (loop_run self sid e m d)) = max_iterations self"
    using agent_loop_always_tools[of self ?st] by (simp add: loop_run_unfold z)
  have p: "\<not> falsy e \<longrightarrow> fst (process_message self now sid e m d) = Inr (fst (loop_run self sid e m d))"
    by (simp add: process_message_accepts)
  from b i a p show ?thesis by (simp add: default_max_iterations_def)
qed

text \<open>
  With the default cap, the model that always asks for a tool is called five times, and
  the model that answers after one tool call is called twice.
\<close>

theorem process_message_bounded_calls_witness:
  "max_iterations (agent_with always_asks) = default_max_iterations
   \<and> llm_calls (snd (loop_run (agent_with always_asks) ''s1'' (Some ''alice@test.com'') ''hello'' empty_database)) = 5
   \<and> llm_calls (snd (loop_run (agent_with always_asks) ''s1'' (Some ''alice@test.com'') ''hello'' empty_database)) \<le> 6
   \<and> llm_calls (snd (loop_run (agent_with (asks_until 1)) ''s1'' (Some ''alice@test.com'') ''hello'' empty_database)) = 2"
proof -
  have m: "max_iterations (agent_with always_asks) = default_max_iterations"
    by (simp add: agent_with_def)
  have t: "\<forall>n msgs. llm_tool_calls (call_llm (agent_with always_asks) n msgs) \<noteq> []"
    by (simp add: agent_with_def always_asks_def)
  have two: "llm_calls (snd (loop_run (agent_with (asks_until 1)) ''s1'' (Some ''alice@test.com'') ''hello'' empty_database)) = 2"
    by code_simp
  from process_message_bounded_calls[of "agent_with always_asks" "''s1''" "Some ''alice@test.com''" "''hello''"
      empty_database 0] m t two
  show ?thesis by (simp add: default_max_iterations_def)
qed

text \<open>
  C4. When the loop is left because the counter has reached the cap, the code after the
  loop decides. With at least one accumulated tool result the envelope is a success that
  carries the synthesized text (a function of the tool results alone) and the warning;
  with none it is a failure with the apology and an error, and never a success. A model
  that asks for a tool on every round ends in the first case whenever the cap is positive.
\<close>

theorem max_iterations_fallback:
  assumes "max_iterations self \<le> iteration st"
  shows "agent_loop self st = after_max_iterations self st
       \<and> (all_tool_results st \<noteq> [] \<longrightarrow>
            success (fst (agent_loop self st))
            \<and> response (fst (agent_loop self st))
                = snd (synthesize_final_response self (llm_messages st) (all_tool_results st))
            \<and> warning (fst (agent_loop self st)) = Some max_iterations_warning
            \<and> tool_calls_made (fst (agent_loop self st)) = length (all_tool_results st))
       \<and> (all_tool_results st = [] \<longrightarrow>
            \<not> success (fst (agent_loop self st))
            \<and> response (fst (agent_loop self st)) = unable_to_process
            \<and> error (fst (agent_loop self st)) = Some ''Max iterations reached without results''
            \<and> warning (fst (agent_loop self st)) = None)
       \<and> ((\<forall>n msgs. llm_tool_calls (call_llm self n msgs) \<noteq> []) \<and> 0 < max_iterations self \<longrightarrow>
            success (fst (loop_run self sid e m d))
            \<and> warning (fst (loop_run self sid e m d)) = Some max_iterations_warning)"
proof -
  have x: "agent_loop self st = after_max_iterations self st"
    by (rule agent_loop_exit[OF assms])
  have r: "(\<forall>n msgs. llm_tool_calls (call_llm self n msgs) \<noteq> []) \<and> 0 < max_iterations self \<longrightarrow>
            success (fst (loop_run self sid e m d))
            \<and> warning (fst (loop_run self sid e m d)) = Some max_iterations_warning"
    unfolding loop_run_unfold
    by (intro impI agent_loop_always_tools_warning) (simp_all add: initial_state_def)
  show ?thesis
    unfolding x using r
    by (simp add: after_max_iterations_def synthesize_final_response_def)
qed

text \<open>
  At the cap of 5: a state with one tool result gives the warning, the state without any
  gives the failure, and the model that always asks ends with the warning.
\<close>

theorem max_iterations_fallback_witness:
  "success (fst (agent_loop (agent_with always_asks)
       ((initial_state (agent_with always_asks) [] ''hello'' empty_database)
          \<lparr>iteration := 5,
           all_tool_results := [\<lparr>tool_call_id = ''call_1'', tool_name = ''list_doctors'',
                                 result = \<lparr>rd_success = True, rd_doctors = [], rd_json = ''{}''\<rparr>\<rparr>]\<rparr>)))
   \<and> \<not> success (fst (agent_loop (agent_with always_asks)
       ((initial_state (agent_with always_asks) [] ''hello'' empty_database)\<lparr>iteration := 5\<rparr>)))
   \<and> warning (fst (loop_run (agent_with always_asks) ''s1'' (Some ''alice@test.com'') ''hello'' empty_database))
       = Some max_iterations_warning"
proof -
  let ?a = "agent_with always_asks"
  let ?s0 = "(initial_state ?a [] ''hello'' empty_database)\<lparr>iteration := 5\<rparr>"
  let ?s1 = "(initial_state ?a [] ''hello'' empty_database)
          \<lparr>iteration := 5,
           all_tool_results := [\<lparr>tool_call_id = ''call_1'', tool_name = ''list_doctors'',
                                 result = \<lparr>rd_success = True, rd_doctors = [], rd_json = ''{}''\<rparr>\<rparr>]\<rparr>"
  have c0: "max_iterations ?a \<le> iteration ?s0" and c1: "max_iterations ?a \<le> iteration ?s1"
    by (simp_all add: agent_with_def default_max_iterations_def)
  have e0: "all_tool_results ?s0 = []" and e1: "all_tool_results ?s1 \<noteq> []"
    by (simp_all add: initial_state_def)
  have t: "(\<forall>n msgs. llm_tool_calls (call_llm ?a n msgs) \<noteq> []) \<and> 0 < max_iterations ?a"
    by (simp add: agent_with_def always_asks_def default_max_iterations_def)
  from max_iterations_fallback[OF c1, of "''s1''" "Some ''alice@test.com''" "''hello''" empty_database] e1 t
  have "success (fst (agent_loop ?a ?s1))"
    and "warning (fst (loop_run ?a ''s1'' (Some ''alice@test.com'') ''hello'' empty_database))
          = Some max_iterations_warning"
    by blast+
  moreover from max_iterations_fallback[OF c0, of "''s1''" "Some ''alice@test.com''" "''hello''" empty_database] e0
  have "\<not> success (fst (agent_loop ?a ?s0))" by blast
  ultimately show ?thesis by blast
qed

subsection \<open>The transcript\<close>

lemma tool_entries_tool_messages [simp]: "tool_entries (map tool_message rs) = map tool_message rs"
  by (induction rs) (auto simp: tool_entries_def tool_message_def)

lemma call_ids_tool_messages [simp]: "transcript_call_ids (map tool_message rs) = map tool_call_id rs"
  by (induction rs) (auto simp: transcript_call_ids_def tool_message_def List.map_filter_simps)

lemma tool_entries_append [simp]: "tool_entries (xs @ ys) = tool_entries xs @ tool_entries ys"
  by (simp add: tool_entries_def)

lemma call_ids_append [simp]:
  "transcript_call_ids (xs @ ys) = transcript_call_ids xs @ transcript_call_ids ys"
  by (simp add: transcript_call_ids_def List.map_filter_def)

lemma synthesize_keeps_messages: "fst (synthesize_final_response self messages trs) = messages"
  by (simp add: synthesize_final_response_def)

lemma run_tools_transcript_ok: "transcript_ok st \<Longrightarrow> transcript_ok (run_tools self tcs st)"
  by (auto simp: transcript_ok_def run_tools_def split: prod.splits)

lemma final_answer_transcript_ok: "transcript_ok st \<Longrightarrow> transcript_ok (snd (final_answer self r st))"
  by (auto simp: transcript_ok_def final_answer_def synthesize_final_response_def split: prod.splits)

lemma after_max_transcript_ok:
  "transcript_ok st \<Longrightarrow> transcript_ok (snd (after_max_iterations self st))"
  by (auto simp: transcript_ok_def after_max_iterations_def synthesize_final_response_def
      split: prod.splits)

lemma counters_transcript_ok [simp]:
  "transcript_ok (st\<lparr>iteration := i, llm_calls := c\<rparr>) = transcript_ok st"
  by (simp add: transcript_ok_def)

lemma agent_loop_transcript_ok:
  "transcript_ok st \<Longrightarrow> transcript_ok (snd (agent_loop self st))"
proof (induction self st rule: agent_loop.induct)
  case (1 self st)
  show ?case
  proof (cases "iteration st < max_iterations self")
    case False
    then show ?thesis using "1.prems"
      by (subst agent_loop.simps) (simp add: after_max_transcript_ok)
  next
    case True
    show ?thesis
    proof (cases "llm_tool_calls (call_llm self (llm_calls st) (llm_messages st)) = []")
      case True
      with \<open>iteration st < max_iterations self\<close> "1.prems" show ?thesis
        by (subst agent_loop.simps) (simp add: final_answer_transcript_ok)
    next
      case False
      have "transcript_ok (snd (agent_loop self (run_tools self (llm_tool_calls (call_llm self (llm_calls st) (llm_messages st)))
                      (st\<lparr>iteration := iteration st + 1, llm_calls := llm_calls st + 1\<rparr>))))"
        by (rule "1.IH"[OF True False]) (simp add: run_tools_transcript_ok "1.prems")
      then show ?thesis using True False
        by (subst agent_loop.simps) simp
    qed
  qed
qed

lemma initial_transcript_ok: "transcript_ok (initial_state self mc um d)"
  by (simp add: transcript_ok_def initial_state_def tool_entries_def transcript_call_ids_def
      List.map_filter_simps)

lemma entries_for_le_one:
  "distinct (transcript_call_ids messages) \<Longrightarrow> length (entries_for cid messages) \<le> 1"
proof (induction messages)
  case Nil
  then show ?case by (simp add: entries_for_def)
next
  case (Cons m ms)
  show ?case
  proof (cases "msg_tool_call_id m = Some cid")
    case True
    with Cons.prems have "cid \<notin> set (transcript_call_ids ms)" "distinct (transcript_call_ids ms)"
      by (auto simp: transcript_call_ids_def List.map_filter_simps)
    then have "entries_for cid ms = []"
      by (auto simp: entries_for_def transcript_call_ids_def List.map_filter_def filter_empty_conv image_iff)
    with True show ?thesis by (simp add: entries_for_def)
  next
    case False
    with Cons show ?thesis
      by (auto simp: entries_for_def transcript_call_ids_def List.map_filter_simps split: option.splits)
  qed
qed

text \<open>Every call is run once, and its result keeps its identifier and its name.\<close>

lemma execute_tools_results: "list_all2 (answers self) tcs (fst (execute_tools self tcs d))"
proof (induction tcs arbitrary: d)
  case Nil
  then show ?case by simp
next
  case (Cons tc tcs)
  obtain r d1 where i: "invoke_tool self tc d = (r, d1)" by (cases "invoke_tool self tc d")
  obtain rs d2 where e: "execute_tools self tcs d1 = (rs, d2)" by (cases "execute_tools self tcs d1")
  from i have "r = fst (invoke_tool self tc d)" by simp
  then have "answers self tc \<lparr>tool_call_id = tc_id tc, tool_name = tc_name tc, result = r\<rparr>"
    unfolding answers_def by auto
  with Cons[of d1] e show ?case by (simp add: i)
qed

lemma run_tools_results:
  "all_tool_results (run_tools self tcs st) = all_tool_results st @ fst (execute_tools self tcs (db st))"
  by (simp add: run_tools_def split: prod.splits)

lemma final_answer_results [simp]:
  "all_tool_results (snd (final_answer self r st)) = all_tool_results st"
  by (auto simp: final_answer_def split: prod.splits)

lemma after_max_results [simp]:
  "all_tool_results (snd (after_max_iterations self st)) = all_tool_results st"
  by (auto simp: after_max_iterations_def split: prod.splits)

text \<open>
  The results a run adds to the list are the answers to the calls the model sends in it,
  one for each call and in the same order.
\<close>

lemma agent_loop_results_of_calls:
  "\<exists>new. all_tool_results (snd (agent_loop self st)) = all_tool_results st @ new
         \<and> list_all2 (answers self) (requested_calls self st) new"
proof (induction self st rule: agent_loop.induct)
  case (1 self st)
  show ?case
  proof (cases "iteration st < max_iterations self")
    case False
    then show ?thesis
      by (subst agent_loop.simps, subst requested_calls.simps) simp
  next
    case True
    define tcs where "tcs = llm_tool_calls (call_llm self (llm_calls st) (llm_messages st))"
    show ?thesis
    proof (cases "tcs = []")
      case e: True
      with True show ?thesis unfolding tcs_def
        by (subst agent_loop.simps, subst requested_calls.simps) simp
    next
      case ne: False
      define st' where "st' = run_tools self tcs (st\<lparr>iteration := iteration st + 1, llm_calls := llm_calls st + 1\<rparr>)"
      define added where "added = fst (execute_tools self tcs (db st))"
      have r: "all_tool_results st' = all_tool_results st @ added"
        by (simp add: st'_def added_def run_tools_results)
      have f: "list_all2 (answers self) tcs added"
        unfolding added_def by (rule execute_tools_results)
      from "1.IH"[OF True ne[unfolded tcs_def]]
      obtain new where n: "all_tool_results (snd (agent_loop self st')) = all_tool_results st' @ new"
        "list_all2 (answers self) (requested_calls self st') new"
        unfolding st'_def tcs_def by blast
      have a: "agent_loop self st = agent_loop self st'"
        using True ne unfolding st'_def tcs_def by (subst agent_loop.simps) simp
      have q: "requested_calls self st = tcs @ requested_calls self st'"
        using True ne unfolding st'_def tcs_def by (subst requested_calls.simps) simp
      have "all_tool_results (snd (agent_loop self st)) = all_tool_results st @ (added @ new)"
        by (simp add: a n(1) r)
      moreover have "list_all2 (answers self) (requested_calls self st) (added @ new)"
        unfolding q by (rule list_all2_appendI[OF f n(2)])
      ultimately show ?thesis by blast
    qed
  qed
qed

lemma answers_ids:
  "list_all2 (answers self) tcs trs \<Longrightarrow>
   map tool_call_id trs = map tc_id tcs \<and> map tool_name trs = map tc_name tcs"
  by (induction rule: list_all2_induct) (auto simp: answers_def)

lemma loop_run_results_of_calls:
  "list_all2 (answers self) (calls_sent self sid e m d) (all_tool_results (snd (loop_run self sid e m d)))"
proof -
  let ?st = "initial_state self (get_context_for_prompt sid e (contexts d)) m
               (d\<lparr>memory_log := memory_log d @ [MemoryRead sid e]\<rparr>)"
  from agent_loop_results_of_calls[of self ?st]
  have "list_all2 (answers self) (requested_calls self ?st) (all_tool_results (snd (agent_loop self ?st)))"
    by (simp add: initial_state_def)
  then show ?thesis by (simp add: loop_run_unfold calls_sent_def read_memory_def)
qed

lemma count_entries:
  "length (entries_for cid messages) = count_list (transcript_call_ids messages) cid"
  by (induction messages)
     (auto simp: entries_for_def transcript_call_ids_def List.map_filter_simps split: option.splits)

lemma count_list_distinct: "distinct xs \<Longrightarrow> count_list xs x = (if x \<in> set xs then 1 else 0)"
  by (induction xs) auto

lemma count_le_one_distinct: "(\<forall>x. count_list xs x \<le> 1) \<longleftrightarrow> distinct xs"
proof
  assume "distinct xs"
  then show "\<forall>x. count_list xs x \<le> 1" by (simp add: count_list_distinct)
next
  assume "\<forall>x. count_list xs x \<le> 1"
  then show "distinct xs"
  proof (induction xs)
    case Nil
    then show ?case by simp
  next
    case (Cons a xs)
    from Cons.prems have "count_list (a # xs) a \<le> 1" by blast
    then have "count_list xs a = 0" by simp
    then have n: "a \<notin> set xs" by (simp add: count_list_0_iff)
    have "\<forall>x. count_list xs x \<le> 1"
    proof
      fix x
      from Cons.prems have "count_list (a # xs) x \<le> 1" by blast
      then show "count_list xs x \<le> 1" by (simp split: if_splits)
    qed
    with Cons.IH n show ?case by simp
  qed
qed

text \<open>
  C8, as the code has it. In every run, the accumulated tool results are the answers to the
  tool calls the language model sent, one result for each call, in order, under the call's
  identifier and name; the entries of role \<^verbatim>\<open>tool\<close> in the transcript are exactly these
  results, each once, also when the fallback synthesis has formatted them (the synthesis
  returns the message list it was given). So, for every call identifier, the transcript
  holds as many entries as the model sent calls under it. No identifier has more than one
  entry exactly when the identifiers the model sends in the run are pairwise distinct, and
  then every call sent has exactly one entry.
\<close>

theorem tool_results_appended_once:
  "list_all2 (answers self) (calls_sent self sid e m d) (all_tool_results (snd (loop_run self sid e m d)))
   \<and> tool_entries (llm_messages (snd (loop_run self sid e m d)))
       = map tool_message (all_tool_results (snd (loop_run self sid e m d)))
   \<and> transcript_call_ids (llm_messages (snd (loop_run self sid e m d)))
       = map tc_id (calls_sent self sid e m d)
   \<and> fst (synthesize_final_response self messages trs) = messages
   \<and> (\<forall>call_id. length (entries_for call_id (llm_messages (snd (loop_run self sid e m d))))
         = count_list (map tc_id (calls_sent self sid e m d)) call_id)
   \<and> ((\<forall>call_id. length (entries_for call_id (llm_messages (snd (loop_run self sid e m d)))) \<le> 1)
        \<longleftrightarrow> distinct (map tc_id (calls_sent self sid e m d)))
   \<and> (distinct (map tc_id (calls_sent self sid e m d))
        \<longrightarrow> (\<forall>tc\<in>set (calls_sent self sid e m d).
                length (entries_for (tc_id tc) (llm_messages (snd (loop_run self sid e m d)))) = 1))"
proof -
  let ?fin = "snd (loop_run self sid e m d)"
  let ?ids = "map tc_id (calls_sent self sid e m d)"
  have ans: "list_all2 (answers self) (calls_sent self sid e m d) (all_tool_results ?fin)"
    by (rule loop_run_results_of_calls)
  have ok: "transcript_ok ?fin"
    unfolding loop_run_unfold by (rule agent_loop_transcript_ok[OF initial_transcript_ok])
  then have ent: "tool_entries (llm_messages ?fin) = map tool_message (all_tool_results ?fin)"
    by (simp add: transcript_ok_def)
  from ok answers_ids[OF ans] have ids: "transcript_call_ids (llm_messages ?fin) = ?ids"
    by (simp add: transcript_ok_def)
  have cnt: "\<forall>call_id. length (entries_for call_id (llm_messages ?fin)) = count_list ?ids call_id"
    by (simp add: count_entries ids)
  have iff: "(\<forall>call_id. length (entries_for call_id (llm_messages ?fin)) \<le> 1) \<longleftrightarrow> distinct ?ids"
    using count_le_one_distinct[of ?ids] by (simp add: cnt)
  have dis: "distinct ?ids
        \<longrightarrow> (\<forall>tc\<in>set (calls_sent self sid e m d). length (entries_for (tc_id tc) (llm_messages ?fin)) = 1)"
    by (simp add: cnt count_list_distinct)
  from ans ent ids cnt iff dis show ?thesis
    by (simp add: synthesize_keeps_messages)
qed

text \<open>The model that asks once: one call sent, one result, one entry under its identifier.\<close>

theorem tool_results_appended_once_witness:
  "calls_sent (agent_with (asks_until 1)) ''s1'' (Some ''alice@test.com'') ''hello'' empty_database
     = [list_doctors_call]
   \<and> distinct (map tc_id
        (calls_sent (agent_with (asks_until 1)) ''s1'' (Some ''alice@test.com'') ''hello'' empty_database))
   \<and> length (entries_for ''call_1'' (llm_messages
        (snd (loop_run (agent_with (asks_until 1)) ''s1'' (Some ''alice@test.com'') ''hello'' empty_database)))) = 1"
proof -
  have c: "calls_sent (agent_with (asks_until 1)) ''s1'' (Some ''alice@test.com'') ''hello'' empty_database
     = [list_doctors_call]"
    by code_simp
  then have d: "distinct (map tc_id
        (calls_sent (agent_with (asks_until 1)) ''s1'' (Some ''alice@test.com'') ''hello'' empty_database))"
    by simp
  from c have i: "list_doctors_call
      \<in> set (calls_sent (agent_with (asks_until 1)) ''s1'' (Some ''alice@test.com'') ''hello'' empty_database)"
    by simp
  from tool_results_appended_once[of "agent_with (asks_until 1)" "''s1''" "Some ''alice@test.com''"
      "''hello''" empty_database] d i
  have "length (entries_for (tc_id list_doctors_call) (llm_messages
        (snd (loop_run (agent_with (asks_until 1)) ''s1'' (Some ''alice@test.com'') ''hello'' empty_database)))) = 1"
    by blast
  then have "length (entries_for ''call_1'' (llm_messages
        (snd (loop_run (agent_with (asks_until 1)) ''s1'' (Some ''alice@test.com'') ''hello'' empty_database)))) = 1"
    by (simp add: list_doctors_call_def)
  with c d show ?thesis by blast
qed

text \<open>
  C8, as it is written, fails for a model that reuses a call identifier: it sends two
  calls under \<^verbatim>\<open>call_1\<close>, in two rounds, the loop appends both results, and the transcript
  holds two entries with that identifier.
\<close>

theorem repeated_call_id_has_two_entries:
  "map tc_id (calls_sent (agent_with (asks_until 2)) ''s1'' (Some ''alice@test.com'') ''hello'' empty_database)
     = [''call_1'', ''call_1'']
   \<and> \<not> length (entries_for ''call_1'' (llm_messages
        (snd (loop_run (agent_with (asks_until 2)) ''s1'' (Some ''alice@test.com'') ''hello'' empty_database)))) \<le> 1"
  by code_simp

subsection \<open>The boundary\<close>

text \<open>\<^verbatim>\<open>strip\<close> removes every white-space character a string starts with, whatever its encoding.\<close>

lemma space_at_front_space:
  "w \<in> set unicode_spaces \<Longrightarrow> space_at_front (w @ x) = length w \<and> 0 < length w"
  by (auto simp: unicode_spaces_def space_at_front_def one_byte_space_def two_byte_space_def
      three_byte_space_def)

lemma lstrip_space: "w \<in> set unicode_spaces \<Longrightarrow> lstrip (w @ x) = lstrip x"
  using space_at_front_space[of w x] by (subst lstrip.simps) simp

lemma lstrip_blank: "blank s \<Longrightarrow> lstrip s = []"
proof (induction s rule: blank.induct)
  case (1 s)
  show ?case
  proof (cases "s = []")
    case True
    then show ?thesis by (subst lstrip.simps) (simp add: space_at_front_def)
  next
    case False
    with "1.prems" obtain w where w: "w \<in> set unicode_spaces" "take (length w) s = w"
      "blank (drop (length w) s)"
      by (subst (asm) blank.simps) (auto simp: list_ex_iff)
    from "1.IH"[OF False w(1) w(3)] have "lstrip (drop (length w) s) = []" .
    moreover from w(2) have "s = w @ drop (length w) s"
      by (metis append_take_drop_id)
    ultimately show ?thesis using lstrip_space[OF w(1), of "drop (length w) s"] by simp
  qed
qed

lemma strip_blank: "blank s \<Longrightarrow> strip s = []"
  by (simp add: strip_def lstrip_blank rstrip.simps[of "[]"] space_at_back_def)

lemma chat_rejects:
  assumes "falsy (cm_user_email message) \<or> (\<exists>x. cm_user_email message = Some x \<and> blank x)"
  shows "chat self now fresh message d
         = (Inl (HTTPException 400 ''user_email is required for conversation isolation''), d)"
  using assms by (cases "cm_user_email message") (auto simp: chat_def strip_blank)

lemma process_message_rejects:
  "falsy e \<Longrightarrow>
   process_message self now sid e m d
     = (Inl (ValueError ''user_email is required for conversation isolation''), d)"
  by (simp add: process_message_def)

lemma process_message_writes:
  "\<not> falsy e \<Longrightarrow>
   memory_log (snd (process_message self now sid e m d))
     = memory_log (db (snd (loop_run self sid e m d))) @ [MemoryWrite sid e]"
  by (simp add: process_message_accepts write_turn_def)

text \<open>
  C9, as the code has it. A request whose user identifier is absent, empty or blank (made
  of white-space characters only) is rejected by the endpoint \<^verbatim>\<open>chat\<close> with the error of the
  missing user identifier (status 400), before \<^verbatim>\<open>process_message\<close> is called, and the database
  comes back as it went in: no context is read or written, and the list of memory accesses
  has not grown. The check of \<^verbatim>\<open>process_message\<close> itself is \<^verbatim>\<open>if not user_email\<close>: it refuses an
  absent or empty identifier before its first memory operation, with the database
  untouched, and accepts every other identifier, a blank one too: then it returns the
  envelope of the run, and the last access it makes to the memory store is the write of the
  turn under that identifier.
\<close>

theorem missing_user_rejected_before_memory:
  assumes "falsy (cm_user_email message) \<or> (\<exists>x. cm_user_email message = Some x \<and> blank x)"
  shows "chat self now fresh message d
           = (Inl (HTTPException 400 ''user_email is required for conversation isolation''), d)
       \<and> memory_log (snd (chat self now fresh message d)) = memory_log d
       \<and> contexts (snd (chat self now fresh message d)) = contexts d
       \<and> (falsy e \<longrightarrow>
            process_message self now sid e m d
              = (Inl (ValueError ''user_email is required for conversation isolation''), d))
       \<and> (\<not> falsy e \<longrightarrow>
            fst (process_message self now sid e m d) = Inr (fst (loop_run self sid e m d))
            \<and> memory_log (snd (process_message self now sid e m d))
                = memory_log (db (snd (loop_run self sid e m d))) @ [MemoryWrite sid e])"
  using chat_rejects[OF assms] process_message_rejects process_message_accepts process_message_writes
  by simp

text \<open>
  A request without \<^verbatim>\<open>user_email\<close>, one whose \<^verbatim>\<open>user_email\<close> is two blanks and one whose
  \<^verbatim>\<open>user_email\<close> is a no-break space (U+00A0) are rejected by the endpoint with no memory
  access; the same request from Alice reads her context and writes the turn.
\<close>

theorem missing_user_rejected_before_memory_witness:
  "chat (agent_with (asks_until 0)) 0 ''fresh''
      \<lparr>cm_session_id = Some ''test123'', cm_message = ''Book appointment'', cm_user_type = ''patient'',
       cm_user_email = None\<rparr> empty_database
     = (Inl (HTTPException 400 ''user_email is required for conversation isolation''), empty_database)
   \<and> chat (agent_with (asks_until 0)) 0 ''fresh''
      \<lparr>cm_session_id = Some ''test123'', cm_message = ''Book appointment'', cm_user_type = ''patient'',
       cm_user_email = Some ''  ''\<rparr> empty_database
     = (Inl (HTTPException 400 ''user_email is required for conversation isolation''), empty_database)
   \<and> chat (agent_with (asks_until 0)) 0 ''fresh''
      \<lparr>cm_session_id = Some ''test123'', cm_message = ''Book appointment'', cm_user_type = ''patient'',
       cm_user_email = Some [CHR 0xC2, CHR 0xA0]\<rparr> empty_database
     = (Inl (HTTPException 400 ''user_email is required for conversation isolation''), empty_database)
   \<and> process_message (agent_with (asks_until 0)) 0 ''test123'' (Some []) ''Book appointment'' empty_database
     = (Inl (ValueError ''user_email is required for conversation isolation''), empty_database)
   \<and> memory_log (snd (chat (agent_with (asks_until 0)) 0 ''fresh''
      \<lparr>cm_session_id = Some ''test123'', cm_message = ''Book appointment'', cm_user_type = ''patient'',
       cm_user_email = Some ''alice@test.com''\<rparr> empty_database))
     = [MemoryRead ''test123'' (Some ''alice@test.com''), MemoryWrite ''test123'' (Some ''alice@test.com'')]"
proof -
  let ?none = "\<lparr>cm_session_id = Some ''test123'', cm_message = ''Book appointment'',
                 cm_user_type = ''patient'', cm_user_email = None\<rparr>"
  let ?two = "\<lparr>cm_session_id = Some ''test123'', cm_message = ''Book appointment'',
                cm_user_type = ''patient'', cm_user_email = Some ''  ''\<rparr>"
  let ?nbsp = "\<lparr>cm_session_id = Some ''test123'', cm_message = ''Book appointment'',
                 cm_user_type = ''patient'', cm_user_email = Some [CHR 0xC2, CHR 0xA0]\<rparr>"
  have b2: "blank ''  ''" by (simp add: blank.simps unicode_spaces_def)
  have b3: "blank [CHR 0xC2, CHR 0xA0]" by (simp add: blank.simps unicode_spaces_def)
  have h1: "falsy (cm_user_email ?none) \<or> (\<exists>x. cm_user_email ?none = Some x \<and> blank x)"
    by simp
  have h2: "falsy (cm_user_email ?two) \<or> (\<exists>x. cm_user_email ?two = Some x \<and> blank x)"
    using b2 by simp
  have h3: "falsy (cm_user_email ?nbsp) \<or> (\<exists>x. cm_user_email ?nbsp = Some x \<and> blank x)"
    using b3 by simp
  have e: "falsy (Some [])" by simp
  have alice: "memory_log (snd (chat (agent_with (asks_until 0)) 0 ''fresh''
      \<lparr>cm_session_id = Some ''test123'', cm_message = ''Book appointment'', cm_user_type = ''patient'',
       cm_user_email = Some ''alice@test.com''\<rparr> empty_database))
     = [MemoryRead ''test123'' (Some ''alice@test.com''), MemoryWrite ''test123'' (Some ''alice@test.com'')]"
    by (simp add: chat_def strip_def lstrip.simps rstrip.simps space_at_front_def space_at_back_def
        one_byte_space_def two_byte_space_def three_byte_space_def
        process_message_def read_memory_def write_turn_def
        agent_loop.simps initial_state_def agent_with_def asks_until_def
        default_max_iterations_def final_answer_def empty_database_def split: prod.splits)
  from missing_user_rejected_before_memory[OF h1, of "agent_with (asks_until 0)" 0 "''fresh''" empty_database
         "Some []" "''test123''" "''Book appointment''"]
       missing_user_rejected_before_memory[OF h2, of "agent_with (asks_until 0)" 0 "''fresh''" empty_database]
       missing_user_rejected_before_memory[OF h3, of "agent_with (asks_until 0)" 0 "''fresh''" empty_database]
       e alice
  show ?thesis by blast
qed

text \<open>
  C9, as it is written, fails for \<^verbatim>\<open>process_message\<close>: called with a user identifier of two
  blanks, it does not fail. It reads the context of that identifier, runs the loop, returns
  a successful envelope and writes the turn, which leaves a context row under the blank
  identifier. Only the endpoint, which strips the identifier before it tests it, rejects
  such a request.
\<close>

theorem blank_identifier_reaches_memory:
  "blank ''  ''
   \<and> isl (fst (process_message (agent_with (asks_until 0)) 0 ''test123'' (Some ''  '')
                 ''Book appointment'' empty_database)) = False
   \<and> memory_log (snd (process_message (agent_with (asks_until 0)) 0 ''test123'' (Some ''  '')
                         ''Book appointment'' empty_database))
       = [MemoryRead ''test123'' (Some ''  ''), MemoryWrite ''test123'' (Some ''  '')]
   \<and> map (\<lambda>r. (session_id r, patient_email r))
         (contexts (snd (process_message (agent_with (asks_until 0)) 0 ''test123'' (Some ''  '')
                           ''Book appointment'' empty_database)))
       = [(''test123'', Some ''  '')]"
  by (simp add: blank.simps unicode_spaces_def process_message_def read_memory_def write_turn_def
      agent_loop.simps initial_state_def agent_with_def asks_until_def
      default_max_iterations_def final_answer_def empty_database_def
      update_message_count_def update_context_def get_or_create_context_def query_first_def
      insert_context_def new_context_def matches_def touch_def empty_json_def
      split: prod.splits)

subsection \<open>Conflicts and alternatives\<close>

lemma find_not_None: "find P xs \<noteq> None \<longleftrightarrow> (\<exists>x\<in>set xs. P x)"
  by (auto simp: find_None_iff)

lemma slot_conflicts_iff:
  "slot_conflicts did dt t dur tbl \<longleftrightarrow>
     (\<exists>b \<in> comparison_set did dt tbl.
        appointment_time b = t \<or> (appointment_time b < t + dur \<and> t < appointment_time b + duration_minutes b))"
  unfolding slot_conflicts_def existing_def overlapping_def find_not_None filter_empty_conv
    comparison_set_def appointment_end_time_def
  by auto

lemma check_conflict_iff:
  "check_conflict dt t dur d tbl \<noteq> NoConflict \<longleftrightarrow> slot_conflicts (doc_id d) dt t dur tbl"
  by (simp add: check_conflict_def slot_conflicts_def Let_def)

text \<open>Two half-open intervals that are not empty meet exactly when each starts before the other ends.\<close>

lemma intervals_meet:
  fixes a c :: nat
  assumes "0 < p" and "0 < q"
  shows "{a ..< a + p} \<inter> {c ..< c + q} \<noteq> {} \<longleftrightarrow> c < a + p \<and> a < c + q"
proof
  assume "{a ..< a + p} \<inter> {c ..< c + q} \<noteq> {}"
  then obtain x where "x \<in> {a ..< a + p} \<inter> {c ..< c + q}" by blast
  then have "a \<le> x" "x < a + p" "c \<le> x" "x < c + q" by simp_all
  then show "c < a + p \<and> a < c + q" by linarith
next
  assume h: "c < a + p \<and> a < c + q"
  then have "max a c \<in> {a ..< a + p} \<inter> {c ..< c + q}" using assms by auto
  then show "{a ..< a + p} \<inter> {c ..< c + q} \<noteq> {}" by blast
qed

lemma slot_conflicts_spec:
  assumes "0 < dur" and "\<forall>b\<in>set tbl. 0 < duration_minutes b"
  shows "slot_conflicts did dt t dur tbl \<longleftrightarrow> spec_conflicts did dt t dur tbl"
proof -
  have "\<And>b. b \<in> comparison_set did dt tbl \<Longrightarrow> 0 < duration_minutes b"
    using assms(2) by (simp add: comparison_set_def)
  then have "\<And>b. b \<in> comparison_set did dt tbl \<Longrightarrow>
      ({t ..< t + dur} \<inter> {appointment_time b ..< appointment_time b + duration_minutes b} \<noteq> {})
      = (appointment_time b < t + dur \<and> t < appointment_time b + duration_minutes b)"
    using intervals_meet[OF assms(1)] by blast
  then show ?thesis
    unfolding slot_conflicts_iff spec_conflicts_def by simp
qed

text \<open>
  C5. \<open>checkConflict\<close> reports a conflict exactly when some booking of the comparison set
  (the provider's bookings on the date that are not cancelled) starts at the requested
  time, or starts before the requested slot ends and ends after it starts; for durations
  that are not zero this is the specification's conflict, stated with the intervals
  \<open>[start, start + duration)\<close>. When every booking of the provider on the date is cancelled,
  the slot is accepted.
\<close>

theorem check_conflict_exactly:
  "(check_conflict dt t dur d tbl \<noteq> NoConflict
      \<longleftrightarrow> (\<exists>b \<in> comparison_set (doc_id d) dt tbl.
             appointment_time b = t
             \<or> (appointment_time b < t + dur \<and> t < appointment_time b + duration_minutes b)))
   \<and> (0 < dur \<and> (\<forall>b\<in>set tbl. 0 < duration_minutes b)
        \<longrightarrow> (check_conflict dt t dur d tbl \<noteq> NoConflict \<longleftrightarrow> spec_conflicts (doc_id d) dt t dur tbl))
   \<and> ((\<forall>b\<in>set tbl. doctor_id b = doc_id d \<and> appointment_date b = dt \<longrightarrow> status b = ''cancelled'')
        \<longrightarrow> check_conflict dt t dur d tbl = NoConflict)"
proof (intro conjI impI)
  show 1: "check_conflict dt t dur d tbl \<noteq> NoConflict
      \<longleftrightarrow> (\<exists>b \<in> comparison_set (doc_id d) dt tbl.
             appointment_time b = t
             \<or> (appointment_time b < t + dur \<and> t < appointment_time b + duration_minutes b))"
    unfolding check_conflict_iff by (rule slot_conflicts_iff)
  {
    assume "0 < dur \<and> (\<forall>b\<in>set tbl. 0 < duration_minutes b)"
    then show "check_conflict dt t dur d tbl \<noteq> NoConflict \<longleftrightarrow> spec_conflicts (doc_id d) dt t dur tbl"
      unfolding check_conflict_iff using slot_conflicts_spec by blast
  }
  {
    assume "\<forall>b\<in>set tbl. doctor_id b = doc_id d \<and> appointment_date b = dt \<longrightarrow> status b = ''cancelled''"
    then have "comparison_set (doc_id d) dt tbl = {}" by (auto simp: comparison_set_def)
    with 1 show "check_conflict dt t dur d tbl = NoConflict" by simp
  }
qed

text \<open>
  With the booking from 10:00 to 10:30, a request for 10:15 conflicts; with that booking
  cancelled, the request for 10:00 is accepted.
\<close>

theorem check_conflict_exactly_witness:
  "check_conflict tuesday 615 30 dr_ahuja [booking_at_10] \<noteq> NoConflict
   \<and> spec_conflicts (doc_id dr_ahuja) tuesday 615 30 [booking_at_10]
   \<and> check_conflict tuesday 600 30 dr_ahuja [booking_at_10\<lparr>status := ''cancelled''\<rparr>] = NoConflict"
proof -
  have p: "(0::nat) < 30 \<and> (\<forall>b\<in>set [booking_at_10]. 0 < duration_minutes b)"
    by (simp add: booking_at_10_def)
  have c: "\<exists>b \<in> comparison_set (doc_id dr_ahuja) tuesday [booking_at_10].
             appointment_time b = 615
             \<or> (appointment_time b < 615 + 30 \<and> 615 < appointment_time b + duration_minutes b)"
    by (simp add: comparison_set_def booking_at_10_def dr_ahuja_def)
  have k: "\<forall>b\<in>set [booking_at_10\<lparr>status := ''cancelled''\<rparr>].
             doctor_id b = doc_id dr_ahuja \<and> appointment_date b = tuesday \<longrightarrow> status b = ''cancelled''"
    by simp
  from check_conflict_exactly[of tuesday 615 30 dr_ahuja "[booking_at_10]"] p c
  have "check_conflict tuesday 615 30 dr_ahuja [booking_at_10] \<noteq> NoConflict"
    and "spec_conflicts (doc_id dr_ahuja) tuesday 615 30 [booking_at_10]"
    by blast+
  moreover from check_conflict_exactly[of tuesday 600 30 dr_ahuja "[booking_at_10\<lparr>status := ''cancelled''\<rparr>]"] k
  have "check_conflict tuesday 600 30 dr_ahuja [booking_at_10\<lparr>status := ''cancelled''\<rparr>] = NoConflict"
    by blast
  ultimately show ?thesis by blast
qed

lemma div_add_step: "0 < step \<Longrightarrow> ((x::nat) + step) div step = Suc (x div step)"
  using div_add_self2[of step x] by simp

lemma slot_starts_step:
  assumes "0 < step" and "cur + step \<le> e"
  shows "slot_starts cur e step = cur # slot_starts (cur + step) e step"
proof -
  have "(e - cur) div step = Suc ((e - (cur + step)) div step)"
  proof -
    have "e - cur = (e - (cur + step)) + step" using assms by simp
    then show ?thesis using div_add_step[OF assms(1), of "e - (cur + step)"] by simp
  qed
  then have "slot_starts cur e step = map (\<lambda>k. cur + k * step) (0 # map Suc [0 ..< (e - (cur + step)) div step])"
    by (simp add: slot_starts_def upt_conv_Cons map_Suc_upt del: upt_Suc)
  then show ?thesis by (simp add: slot_starts_def comp_def add.assoc add.commute)
qed

lemma slot_starts_done:
  assumes "step = 0 \<or> e < cur + step"
  shows "slot_starts cur e step = []"
proof (cases "step = 0")
  case True
  then show ?thesis by (simp add: slot_starts_def)
next
  case False
  with assms have "e - cur < step" by linarith
  then show ?thesis by (simp add: slot_starts_def)
qed

text \<open>The walk is the list of the first five free slots of the day.\<close>

lemma walk_slots_eq:
  "walk_slots free step e cur found =
     (if 5 \<le> length found then found
      else found @ take (5 - length found) (filter free (slot_starts cur e step)))"
proof (induction free step e cur found rule: walk_slots.induct)
  case (1 free step e cur found)
  show ?case
  proof (cases "step = 0 \<or> e < cur + step \<or> 5 \<le> length found")
    case True
    then show ?thesis
      by (subst walk_slots.simps) (auto simp: slot_starts_done)
  next
    case False
    then have s: "slot_starts cur e step = cur # slot_starts (cur + step) e step"
      by (intro slot_starts_step) auto
    from False obtain m where m: "5 - length found = Suc m" "4 - length found = m"
      by (cases "5 - length found") auto
    from False have w: "walk_slots free step e cur found =
        walk_slots free step e (cur + step) (if free cur then found @ [cur] else found)"
      by (subst walk_slots.simps) simp
    show ?thesis
    proof (cases "free cur")
      case True
      with False "1.IH" m show ?thesis unfolding w s by (cases m) auto
    next
      case nf: False
      with False "1.IH" show ?thesis unfolding w s by auto
    qed
  qed
qed

lemma find_alternative_slots_eq:
  "find_alternative_slots d dt tbl =
     take 5 (filter (\<lambda>t. \<not> slot_conflicts (doc_id d) dt t (slot_duration_minutes d) tbl)
               (slot_starts (available_start_time d) (available_end_time d) (slot_duration_minutes d)))"
  by (simp add: find_alternative_slots_def walk_slots_eq)

lemma slot_starts_sorted: "sorted_wrt (<) (slot_starts s e step)"
proof (cases "step = 0")
  case True
  then show ?thesis by (simp add: slot_starts_def)
next
  case False
  then show ?thesis by (auto simp: slot_starts_def sorted_wrt_map sorted_wrt_iff_nth_less)
qed

lemma slot_starts_in_hours:
  assumes "x \<in> set (slot_starts s e step)"
  shows "s \<le> x \<and> x + step \<le> e \<and> 0 < step"
proof -
  from assms obtain k where k: "k < (e - s) div step" "x = s + k * step"
    by (auto simp: slot_starts_def)
  then have p: "0 < step" by (cases "step = 0") auto
  from k(1) have "Suc k \<le> (e - s) div step" by simp
  then have "Suc k * step \<le> e - s" using p
    by (meson order_trans mult_le_mono1 div_times_less_eq_dividend)
  then show ?thesis using k p by auto
qed

lemma find_alternative_slots_valid:
  assumes "s \<in> set (find_alternative_slots d dt tbl)"
  shows "available_start_time d \<le> s \<and> s + slot_duration_minutes d \<le> available_end_time d
         \<and> \<not> slot_conflicts (doc_id d) dt s (slot_duration_minutes d) tbl"
proof -
  from assms have "s \<in> set (filter (\<lambda>t. \<not> slot_conflicts (doc_id d) dt t (slot_duration_minutes d) tbl)
               (slot_starts (available_start_time d) (available_end_time d) (slot_duration_minutes d)))"
    unfolding find_alternative_slots_eq by (rule in_set_takeD)
  then show ?thesis using slot_starts_in_hours by auto
qed

lemma find_alternative_slots_length: "length (find_alternative_slots d dt tbl) \<le> 5"
  by (simp add: find_alternative_slots_eq)

lemma find_alternative_slots_sorted: "sorted_wrt (<) (find_alternative_slots d dt tbl)"
  unfolding find_alternative_slots_eq
  by (intro sorted_wrt_take sorted_wrt_filter slot_starts_sorted)

lemma check_conflict_slots:
  "check_conflict dt t dur d tbl = Conflict why slots \<Longrightarrow> slots = find_alternative_slots d dt tbl"
  by (auto simp: check_conflict_def Let_def split: if_splits)

text \<open>
  C6. The alternatives are the first five, in chronological order, of the slots of the
  working day (walked from the opening time in steps of the slot duration) that conflict
  with no active booking: at most five, strictly increasing, each within the hours and
  free, and never the requested time itself when that time is in conflict. In the scenario
  (09:00 to 17:00, 30 minutes, one booking on Tuesday from 10:00 to 10:30) the request for
  Tuesday 10:00 is answered with the error type \<^verbatim>\<open>conflict\<close> and the alternatives 09:00,
  09:30, 10:30, 11:00, 11:30.
\<close>

theorem alternatives_walk:
  "find_alternative_slots d dt tbl
     = take 5 (filter (\<lambda>s. \<not> slot_conflicts (doc_id d) dt s (slot_duration_minutes d) tbl)
                (slot_starts (available_start_time d) (available_end_time d) (slot_duration_minutes d)))
   \<and> length (find_alternative_slots d dt tbl) \<le> 5
   \<and> sorted_wrt (<) (find_alternative_slots d dt tbl)
   \<and> (\<forall>s\<in>set (find_alternative_slots d dt tbl).
         available_start_time d \<le> s \<and> s + slot_duration_minutes d \<le> available_end_time d
         \<and> \<not> slot_conflicts (doc_id d) dt s (slot_duration_minutes d) tbl)
   \<and> (\<forall>why slots. check_conflict dt t (slot_duration_minutes d) d tbl = Conflict why slots
         \<longrightarrow> slots = find_alternative_slots d dt tbl \<and> t \<notin> set slots)
   \<and> validate_complete_appointment None dr_ahuja tuesday 600 [booking_at_10]
       = Invalid ''conflict''
           ''This time slot (10:00 AM) is already booked. Available slots on December 23, 2025: 09:00 AM, 09:30 AM, 10:30 AM.''
           [540, 570, 630, 660, 690]"
proof (intro conjI allI impI ballI)
  show "find_alternative_slots d dt tbl
     = take 5 (filter (\<lambda>s. \<not> slot_conflicts (doc_id d) dt s (slot_duration_minutes d) tbl)
                (slot_starts (available_start_time d) (available_end_time d) (slot_duration_minutes d)))"
    by (rule find_alternative_slots_eq)
  show "length (find_alternative_slots d dt tbl) \<le> 5"
    by (rule find_alternative_slots_length)
  show "sorted_wrt (<) (find_alternative_slots d dt tbl)"
    by (rule find_alternative_slots_sorted)
  show "validate_complete_appointment None dr_ahuja tuesday 600 [booking_at_10]
       = Invalid ''conflict''
           ''This time slot (10:00 AM) is already booked. Available slots on December 23, 2025: 09:00 AM, 09:30 AM, 10:30 AM.''
           [540, 570, 630, 660, 690]"
    by code_simp
next
  fix s assume s: "s \<in> set (find_alternative_slots d dt tbl)"
  from find_alternative_slots_valid[OF s]
  show "available_start_time d \<le> s" "s + slot_duration_minutes d \<le> available_end_time d"
    "\<not> slot_conflicts (doc_id d) dt s (slot_duration_minutes d) tbl"
    by auto
next
  fix why slots
  assume c: "check_conflict dt t (slot_duration_minutes d) d tbl = Conflict why slots"
  then show eq: "slots = find_alternative_slots d dt tbl" by (rule check_conflict_slots)
  from c have "slot_conflicts (doc_id d) dt t (slot_duration_minutes d) tbl"
    using check_conflict_iff[of dt t "slot_duration_minutes d" d tbl] by simp
  then show "t \<notin> set slots"
    unfolding eq using find_alternative_slots_valid[of t d dt tbl] by blast
qed

text \<open>In the scenario the alternatives start with 09:00, 09:30 and 10:30, and 10:00 is not among them.\<close>

theorem alternatives_walk_witness:
  "check_conflict tuesday 600 (slot_duration_minutes dr_ahuja) dr_ahuja [booking_at_10]
     = Conflict ''This time slot (10:00 AM) is already booked. Available slots on December 23, 2025: 09:00 AM, 09:30 AM, 10:30 AM.''
         [540, 570, 630, 660, 690]
   \<and> take 3 (find_alternative_slots dr_ahuja tuesday [booking_at_10]) = [540, 570, 630]
   \<and> 600 \<notin> set (find_alternative_slots dr_ahuja tuesday [booking_at_10])"
proof -
  have c: "check_conflict tuesday 600 (slot_duration_minutes dr_ahuja) dr_ahuja [booking_at_10]
     = Conflict ''This time slot (10:00 AM) is already booked. Available slots on December 23, 2025: 09:00 AM, 09:30 AM, 10:30 AM.''
         [540, 570, 630, 660, 690]"
    by code_simp
  from alternatives_walk[of dr_ahuja tuesday "[booking_at_10]" 600] c
  have e: "[540, 570, 630, 660, 690] = find_alternative_slots dr_ahuja tuesday [booking_at_10]"
    and n: "600 \<notin> set [540, 570, 630, 660, 690::nat]"
    by blast+
  from e have "take 3 (find_alternative_slots dr_ahuja tuesday [booking_at_10]) = [540, 570, 630]"
    by (simp flip: e)
  with c e n show ?thesis by simp
qed

subsection \<open>The guarded insert\<close>

lemma insert_violation:
  "list_ex (same_slot a) tbl \<Longrightarrow> insert_appointment a tbl = Inl (IntegrityError unique_violation_text)"
  by (simp add: insert_appointment_def)

lemma commit_violation:
  "list_ex (same_slot (new_appointment p d dt t)) tbl \<Longrightarrow>
   commit_appointment p d dt t tbl = (DatabaseError unique_violation_text, tbl)"
  by (simp add: commit_appointment_def insert_violation)

lemma commit_free:
  "\<not> list_ex (same_slot (new_appointment p d dt t)) tbl \<Longrightarrow>
   commit_appointment p d dt t tbl
     = (Booked (next_id tbl), tbl @ [(new_appointment p d dt t)\<lparr>appt_id := next_id tbl\<rparr>])"
  by (simp add: commit_appointment_def insert_appointment_def Let_def)

lemma validate_accepts:
  assumes "validate_time t d = None" and "\<not> slot_conflicts (doc_id d) dt t (slot_duration_minutes d) tbl"
  shows "validate_complete_appointment None d dt t tbl = Valid"
proof -
  from assms(2) have "check_conflict dt t (slot_duration_minutes d) d tbl = NoConflict"
    using check_conflict_iff by blast
  with assms(1) show ?thesis by (simp add: validate_complete_appointment_def)
qed

lemma validate_exact_conflict:
  assumes "validate_time t d = None"
    and "row \<in> set tbl" and "same_slot row (new_appointment p d dt t)" and "status row \<noteq> ''cancelled''"
  shows "\<exists>why. validate_complete_appointment None d dt t tbl
           = Invalid ''conflict'' why (find_alternative_slots d dt tbl)
         \<and> (find_alternative_slots d dt tbl = []
              \<longrightarrow> why = ''This time slot is already booked. '' @ no_alternatives_text)"
proof -
  from assms(2-4) have "existing (doc_id d) dt t tbl \<noteq> None"
    unfolding existing_def find_not_None
    by (auto simp: same_slot_def new_appointment_def)
  then obtain x where x: "existing (doc_id d) dt t tbl = Some x" by auto
  then show ?thesis using assms(1)
    by (simp add: validate_complete_appointment_def check_conflict_def Let_def conflict_reason_def)
qed

text \<open>
  C10. Let the table hold an appointment of the provider on the date at the requested
  start time, let every appointment of the provider on that date that starts at the
  requested time or overlaps the requested slot be cancelled, and let the time lie within
  the working hours. Then the appointment at the start time is cancelled, the validator
  finds no conflict and accepts, and the insert that follows is refused by the unique
  constraint: the booking ends with the database's error and the table unchanged, not
  with a rejection that carries an error type and alternatives.
\<close>

theorem cancelled_row_blocks_insert:
  assumes "r \<in> set tbl" and "doctor_id r = doc_id d" and "appointment_date r = dt"
    and "appointment_time r = t"
    and "\<forall>b\<in>set tbl. doctor_id b = doc_id d \<and> appointment_date b = dt
           \<and> (appointment_time b = t
               \<or> (appointment_time b < t + slot_duration_minutes d \<and> t < appointment_end_time b))
           \<longrightarrow> status b = ''cancelled''"
    and "validate_time t d = None"
  shows "status r = ''cancelled''
       \<and> check_conflict dt t (slot_duration_minutes d) d tbl = NoConflict
       \<and> validate_complete_appointment None d dt t tbl = Valid
       \<and> insert_appointment (new_appointment p d dt t) tbl = Inl (IntegrityError unique_violation_text)
       \<and> book_appointment None p d dt t tbl = (DatabaseError unique_violation_text, tbl)"
proof -
  from assms(1-5) have c: "status r = ''cancelled''" by blast
  have nc: "\<not> slot_conflicts (doc_id d) dt t (slot_duration_minutes d) tbl"
    unfolding slot_conflicts_iff comparison_set_def using assms(5)
    by (auto simp: appointment_end_time_def)
  then have n: "check_conflict dt t (slot_duration_minutes d) d tbl = NoConflict"
    using check_conflict_iff by blast
  have v: "validate_complete_appointment None d dt t tbl = Valid"
    by (rule validate_accepts[OF assms(6) nc])
  have "same_slot (new_appointment p d dt t) r"
    using assms(2-4) by (simp add: same_slot_def new_appointment_def)
  with assms(1) have k: "list_ex (same_slot (new_appointment p d dt t)) tbl"
    unfolding list_ex_iff by blast
  have b: "book_appointment None p d dt t tbl = (DatabaseError unique_violation_text, tbl)"
    by (simp add: book_appointment_def v commit_violation[OF k])
  from c n v insert_violation[OF k] b show ?thesis by simp
qed

text \<open>The booking of 10:00 is cancelled; patient 7 asks for Tuesday 10:00.\<close>

theorem cancelled_row_blocks_insert_witness:
  "validate_complete_appointment None dr_ahuja tuesday 600 [booking_at_10\<lparr>status := ''cancelled''\<rparr>] = Valid
   \<and> book_appointment None 7 dr_ahuja tuesday 600 [booking_at_10\<lparr>status := ''cancelled''\<rparr>]
       = (DatabaseError unique_violation_text, [booking_at_10\<lparr>status := ''cancelled''\<rparr>])"
proof -
  let ?r = "booking_at_10\<lparr>status := ''cancelled''\<rparr>"
  have 1: "?r \<in> set [?r]" by simp
  have 2: "doctor_id ?r = doc_id dr_ahuja" "appointment_date ?r = tuesday" "appointment_time ?r = 600"
    by (simp_all add: booking_at_10_def dr_ahuja_def)
  have 5: "\<forall>b\<in>set [?r]. doctor_id b = doc_id dr_ahuja \<and> appointment_date b = tuesday
           \<and> (appointment_time b = 600
               \<or> (appointment_time b < 600 + slot_duration_minutes dr_ahuja \<and> 600 < appointment_end_time b))
           \<longrightarrow> status b = ''cancelled''"
    by simp
  have 6: "validate_time 600 dr_ahuja = None"
    by (simp add: validate_time_def dr_ahuja_def)
  from cancelled_row_blocks_insert[OF 1 2 5 6, of 7] show ?thesis by blast
qed

subsection \<open>Concurrent attempts on one slot\<close>

lemma count_update:
  "i < length xs \<Longrightarrow>
   length (filter P (xs[i := y])) + (if P (xs ! i) then 1 else 0)
     = length (filter P xs) + (if P y then 1 else 0)"
proof (induction xs arbitrary: i)
  case Nil
  then show ?case by simp
next
  case (Cons x xs)
  then show ?case by (cases i) auto
qed

lemma in_set_updateE:
  assumes "a \<in> set (xs[i := y])"
  shows "a = y \<or> a \<in> set xs"
  using assms set_update_subset_insert[of xs i y] by auto

lemma advance_length [simp]: "length (attempts (advance de d dt t i w)) = length (attempts w)"
  by (auto simp: advance_def Let_def split: phase.splits validation.splits prod.splits)

text \<open>One step of any attempt keeps the invariant of the race.\<close>

lemma advance_inv:
  assumes vt: "validate_time t d = None"
    and free: "\<not> slot_conflicts (doc_id d) dt t (slot_duration_minutes d) tbl0"
    and nokey: "\<not> list_ex (same_slot (new_appointment 0 d dt t)) tbl0"
    and inv: "race_inv d dt t tbl0 w"
  shows "race_inv d dt t tbl0 (advance None d dt t i w)"
proof (cases "length (attempts w) \<le> i")
  case True
  then show ?thesis using inv by (simp add: advance_def)
next
  case False
  then have i: "i < length (attempts w)" by simp
  define a where "a = attempts w ! i"
  have a_in: "a \<in> set (attempts w)" using i by (simp add: a_def)
  show ?thesis
  proof (cases "phase a")
    case (Done r)
    then show ?thesis using inv i by (simp add: advance_def a_def)
  next
    case Pending
    from inv show ?thesis unfolding race_inv_def
    proof (elim disjE conjE exE)
      assume t0: "table w = tbl0"
        and ph: "\<forall>a\<in>set (attempts w). phase a = Pending \<or> phase a = Validated"
      have adv: "advance None d dt t i w = w\<lparr>attempts := (attempts w)[i := a\<lparr>phase := Validated\<rparr>]\<rparr>"
        using i Pending validate_accepts[OF vt free] by (simp add: advance_def a_def[symmetric] t0)
      show "(table (advance None d dt t i w) = tbl0 \<and>
              (\<forall>a\<in>set (attempts (advance None d dt t i w)). phase a = Pending \<or> phase a = Validated))
            \<or> (\<exists>row. table (advance None d dt t i w) = tbl0 @ [row] \<and> same_slot row (new_appointment 0 d dt t)
                 \<and> status row \<noteq> ''cancelled''
                 \<and> length (filter is_booked (attempts (advance None d dt t i w))) = 1
                 \<and> (\<forall>a\<in>set (attempts (advance None d dt t i w)). \<forall>r. phase a = Done r \<longrightarrow>
                       good_answer d dt (table (advance None d dt t i w)) r))"
        unfolding adv using t0 ph by (auto dest!: in_set_updateE)
    next
      fix row
      assume tb: "table w = tbl0 @ [row]" and ss: "same_slot row (new_appointment 0 d dt t)"
        and st: "status row \<noteq> ''cancelled''"
        and cnt: "length (filter is_booked (attempts w)) = 1"
        and good: "\<forall>a\<in>set (attempts w). \<forall>r. phase a = Done r \<longrightarrow> good_answer d dt (table w) r"
      have "row \<in> set (table w)" by (simp add: tb)
      from validate_exact_conflict[OF vt this ss st]
      obtain why where why: "validate_complete_appointment None d dt t (table w)
           = Invalid ''conflict'' why (find_alternative_slots d dt (table w))"
        "find_alternative_slots d dt (table w) = []
           \<longrightarrow> why = ''This time slot is already booked. '' @ no_alternatives_text"
        by blast
      define y where "y = a\<lparr>phase := Done (Rejected ''conflict'' why (find_alternative_slots d dt (table w)))\<rparr>"
      have adv: "advance None d dt t i w = w\<lparr>attempts := (attempts w)[i := y]\<rparr>"
        using i Pending why(1) by (simp add: advance_def a_def[symmetric] y_def)
      have gy: "good_answer d dt (table w) (Rejected ''conflict'' why (find_alternative_slots d dt (table w)))"
        using why(2) find_alternative_slots_valid[of _ d dt "table w"]
          find_alternative_slots_length[of d dt "table w"]
        by (auto simp: good_answer_def)
      have c: "length (filter is_booked ((attempts w)[i := y])) = 1"
        using count_update[OF i, of is_booked y] cnt Pending by (simp add: a_def[symmetric] y_def)
      have g: "\<forall>b\<in>set ((attempts w)[i := y]). \<forall>r. phase b = Done r \<longrightarrow> good_answer d dt (table w) r"
        using good gy by (auto dest!: in_set_updateE simp: y_def)
      show "(table (advance None d dt t i w) = tbl0 \<and>
              (\<forall>a\<in>set (attempts (advance None d dt t i w)). phase a = Pending \<or> phase a = Validated))
            \<or> (\<exists>row. table (advance None d dt t i w) = tbl0 @ [row] \<and> same_slot row (new_appointment 0 d dt t)
                 \<and> status row \<noteq> ''cancelled''
                 \<and> length (filter is_booked (attempts (advance None d dt t i w))) = 1
                 \<and> (\<forall>a\<in>set (attempts (advance None d dt t i w)). \<forall>r. phase a = Done r \<longrightarrow>
                       good_answer d dt (table (advance None d dt t i w)) r))"
        unfolding adv using tb ss st c g by auto
    qed
  next
    case Validated
    from inv show ?thesis unfolding race_inv_def
    proof (elim disjE conjE exE)
      assume t0: "table w = tbl0"
        and ph: "\<forall>a\<in>set (attempts w). phase a = Pending \<or> phase a = Validated"
      define row where "row = (new_appointment (patient a) d dt t)\<lparr>appt_id := next_id tbl0\<rparr>"
      define y where "y = a\<lparr>phase := Done (Booked (next_id tbl0))\<rparr>"
      have nk: "\<not> list_ex (same_slot (new_appointment (patient a) d dt t)) tbl0"
        using nokey by (simp add: list_ex_iff same_slot_def new_appointment_def)
      have adv: "advance None d dt t i w = w\<lparr>table := tbl0 @ [row], attempts := (attempts w)[i := y]\<rparr>"
        using i Validated commit_free[OF nk] by (simp add: advance_def a_def[symmetric] t0 row_def y_def)
      have nb: "filter is_booked (attempts w) = []"
        using ph by (auto simp: filter_empty_conv)
      have c: "length (filter is_booked ((attempts w)[i := y])) = 1"
        using count_update[OF i, of is_booked y] nb Validated by (simp add: a_def[symmetric] y_def)
      have g: "\<forall>b\<in>set ((attempts w)[i := y]). \<forall>r. phase b = Done r \<longrightarrow> good_answer d dt (tbl0 @ [row]) r"
        using ph by (auto dest!: in_set_updateE simp: y_def good_answer_def)
      have r1: "same_slot row (new_appointment 0 d dt t)" "status row \<noteq> ''cancelled''"
        by (simp_all add: row_def same_slot_def new_appointment_def)
      show "(table (advance None d dt t i w) = tbl0 \<and>
              (\<forall>a\<in>set (attempts (advance None d dt t i w)). phase a = Pending \<or> phase a = Validated))
            \<or> (\<exists>row. table (advance None d dt t i w) = tbl0 @ [row] \<and> same_slot row (new_appointment 0 d dt t)
                 \<and> status row \<noteq> ''cancelled''
                 \<and> length (filter is_booked (attempts (advance None d dt t i w))) = 1
                 \<and> (\<forall>a\<in>set (attempts (advance None d dt t i w)). \<forall>r. phase a = Done r \<longrightarrow>
                       good_answer d dt (table (advance None d dt t i w)) r))"
        unfolding adv using r1 c g by auto
    next
      fix row
      assume tb: "table w = tbl0 @ [row]" and ss: "same_slot row (new_appointment 0 d dt t)"
        and st: "status row \<noteq> ''cancelled''"
        and cnt: "length (filter is_booked (attempts w)) = 1"
        and good: "\<forall>a\<in>set (attempts w). \<forall>r. phase a = Done r \<longrightarrow> good_answer d dt (table w) r"
      define y where "y = a\<lparr>phase := Done (DatabaseError unique_violation_text)\<rparr>"
      have "list_ex (same_slot (new_appointment (patient a) d dt t)) (table w)"
        using ss by (auto simp: tb same_slot_def new_appointment_def)
      from commit_violation[OF this]
      have adv: "advance None d dt t i w = w\<lparr>attempts := (attempts w)[i := y]\<rparr>"
        using i Validated by (simp add: advance_def a_def[symmetric] y_def)
      have c: "length (filter is_booked ((attempts w)[i := y])) = 1"
        using count_update[OF i, of is_booked y] cnt Validated by (simp add: a_def[symmetric] y_def)
      have g: "\<forall>b\<in>set ((attempts w)[i := y]). \<forall>r. phase b = Done r \<longrightarrow> good_answer d dt (table w) r"
        using good by (auto dest!: in_set_updateE simp: y_def good_answer_def)
      show "(table (advance None d dt t i w) = tbl0 \<and>
              (\<forall>a\<in>set (attempts (advance None d dt t i w)). phase a = Pending \<or> phase a = Validated))
            \<or> (\<exists>row. table (advance None d dt t i w) = tbl0 @ [row] \<and> same_slot row (new_appointment 0 d dt t)
                 \<and> status row \<noteq> ''cancelled''
                 \<and> length (filter is_booked (attempts (advance None d dt t i w))) = 1
                 \<and> (\<forall>a\<in>set (attempts (advance None d dt t i w)). \<forall>r. phase a = Done r \<longrightarrow>
                       good_answer d dt (table (advance None d dt t i w)) r))"
        unfolding adv using tb ss st c g by auto
    qed
  qed
qed

lemma run_schedule_inv:
  assumes "validate_time t d = None"
    and "\<not> slot_conflicts (doc_id d) dt t (slot_duration_minutes d) tbl0"
    and "\<not> list_ex (same_slot (new_appointment 0 d dt t)) tbl0"
  shows "race_inv d dt t tbl0 w \<Longrightarrow> race_inv d dt t tbl0 (run_schedule None d dt t schedule w)"
  unfolding run_schedule_def
proof (induction schedule arbitrary: w)
  case Nil
  then show ?case by simp
next
  case (Cons i schedule)
  from advance_inv[OF assms Cons.prems] Cons.IH show ?case by simp
qed

lemma run_schedule_length [simp]:
  "length (attempts (run_schedule de d dt t schedule w)) = length (attempts w)"
  unfolding run_schedule_def by (induction schedule arbitrary: w) simp_all

lemma start_inv: "race_inv d dt t tbl0 (start_world tbl0 patients)"
  by (auto simp: race_inv_def start_world_def)

lemma race_inv_race:
  assumes "validate_time t d = None"
    and "\<not> slot_conflicts (doc_id d) dt t (slot_duration_minutes d) tbl0"
    and "\<not> list_ex (same_slot (new_appointment 0 d dt t)) tbl0"
  shows "race_inv d dt t tbl0 (race d dt t tbl0 patients schedule)"
  unfolding race_def by (rule run_schedule_inv[OF assms start_inv])

lemma not_booked_count:
  "length (filter (\<lambda>a. \<not> is_booked a) xs) = length xs - length (filter is_booked xs)"
  using sum_length_filter_compl[of is_booked xs] by simp

text \<open>
  C2, as the code has it. Let the requested time lie within the hours of the provider, on
  an accepted date, and let the table hold no row on the slot (of any status) and no active
  booking in conflict with it. Then, however the validations and inserts of the attempts
  are interleaved: at most one attempt gets the booking; every other answer given is a
  conflict with at most five alternatives, each within the hours and free in the table
  (and with the explicit sentence when there is none), or the refusal of the duplicate key
  by the database; and once all of the \<open>N \<ge> 1\<close> attempts have answered, exactly one holds
  the booking and \<open>N - 1\<close> do not.
\<close>

theorem one_booking_under_every_schedule:
  assumes "validate_time t d = None"
    and "\<not> slot_conflicts (doc_id d) dt t (slot_duration_minutes d) tbl0"
    and "\<not> list_ex (same_slot (new_appointment 0 d dt t)) tbl0"
  shows "length (filter is_booked (attempts (race d dt t tbl0 patients schedule))) \<le> 1
       \<and> (\<forall>a\<in>set (attempts (race d dt t tbl0 patients schedule)). \<forall>r. phase a = Done r \<longrightarrow>
             good_answer d dt (table (race d dt t tbl0 patients schedule)) r)
       \<and> (patients \<noteq> [] \<and> (\<forall>a\<in>set (attempts (race d dt t tbl0 patients schedule)). is_done a) \<longrightarrow>
             length (filter is_booked (attempts (race d dt t tbl0 patients schedule))) = 1
             \<and> length (filter (\<lambda>a. \<not> is_booked a) (attempts (race d dt t tbl0 patients schedule)))
                 = length patients - 1)"
proof -
  let ?w = "race d dt t tbl0 patients schedule"
  have len: "length (attempts ?w) = length patients"
    by (simp add: race_def start_world_def)
  from race_inv_race[OF assms, of patients schedule]
  consider (none) "table ?w = tbl0" "\<forall>a\<in>set (attempts ?w). phase a = Pending \<or> phase a = Validated"
    | (one) "length (filter is_booked (attempts ?w)) = 1"
        "\<forall>a\<in>set (attempts ?w). \<forall>r. phase a = Done r \<longrightarrow> good_answer d dt (table ?w) r"
    unfolding race_inv_def by blast
  then show ?thesis
  proof cases
    case none
    then have nb: "filter is_booked (attempts ?w) = []" by (auto simp: filter_empty_conv)
    have nd: "patients \<noteq> [] \<Longrightarrow> \<not> (\<forall>a\<in>set (attempts ?w). is_done a)"
    proof
      assume p: "patients \<noteq> []" and all: "\<forall>a\<in>set (attempts ?w). is_done a"
      from p len obtain a where a: "a \<in> set (attempts ?w)" by (cases "attempts ?w") auto
      with none(2) all show False by (auto split: phase.splits)
    qed
    from none(2) have "\<forall>a\<in>set (attempts ?w). \<forall>r. phase a = Done r \<longrightarrow> good_answer d dt (table ?w) r"
      by auto
    with nb nd show ?thesis by auto
  next
    case one
    then show ?thesis using not_booked_count[of "attempts ?w"] len by simp
  qed
qed

text \<open>
  Two patients, an empty table. When the first attempt is finished before the second
  starts, the second gets the conflict with its alternatives; the theorem covers both
  this schedule and the one below.
\<close>

theorem one_booking_under_every_schedule_witness:
  "length (filter is_booked (attempts (race dr_ahuja tuesday 600 [] [7, 8] [0, 0, 1, 1]))) = 1
   \<and> length (filter is_conflict_response (attempts (race dr_ahuja tuesday 600 [] [7, 8] [0, 0, 1, 1]))) = 1
   \<and> length (filter is_booked (attempts (race dr_ahuja tuesday 600 [] [7, 8] [0, 1, 0, 1]))) = 1"
proof -
  have 1: "validate_time 600 dr_ahuja = None"
    by (simp add: validate_time_def dr_ahuja_def)
  have 2: "\<not> slot_conflicts (doc_id dr_ahuja) tuesday 600 (slot_duration_minutes dr_ahuja) []"
    by (simp add: slot_conflicts_def existing_def overlapping_def)
  have 3: "\<not> list_ex (same_slot (new_appointment 0 dr_ahuja tuesday 600)) []"
    by simp
  have p: "[7, 8::nat] \<noteq> []" by simp
  have d1: "\<forall>a\<in>set (attempts (race dr_ahuja tuesday 600 [] [7, 8] [0, 0, 1, 1])). is_done a"
    by code_simp
  have d2: "\<forall>a\<in>set (attempts (race dr_ahuja tuesday 600 [] [7, 8] [0, 1, 0, 1])). is_done a"
    by code_simp
  have c: "length (filter is_conflict_response (attempts (race dr_ahuja tuesday 600 [] [7, 8] [0, 0, 1, 1]))) = 1"
    by code_simp
  from one_booking_under_every_schedule[OF 1 2 3, of "[7, 8]" "[0, 0, 1, 1]"] p d1
  have a: "length (filter is_booked (attempts (race dr_ahuja tuesday 600 [] [7, 8] [0, 0, 1, 1]))) = 1"
    by blast
  from one_booking_under_every_schedule[OF 1 2 3, of "[7, 8]" "[0, 1, 0, 1]"] p d2
  have b: "length (filter is_booked (attempts (race dr_ahuja tuesday 600 [] [7, 8] [0, 1, 0, 1]))) = 1"
    by blast
  from a b c show ?thesis by blast
qed

text \<open>
  C2, as it is written, fails when both attempts validate before either inserts: the
  first insert succeeds, the second is refused by the unique constraint, and the second
  patient gets the bare database error, which is no conflict response and carries no
  alternatives. Of the two attempts none is answered with a conflict.
\<close>

theorem racing_loser_gets_database_error:
  "attempts (race dr_ahuja tuesday 600 [] [7, 8] [0, 1, 0, 1])
     = [\<lparr>patient = 7, phase = Done (Booked 1)\<rparr>,
        \<lparr>patient = 8, phase = Done (DatabaseError unique_violation_text)\<rparr>]
   \<and> length (filter is_conflict_response (attempts (race dr_ahuja tuesday 600 [] [7, 8] [0, 1, 0, 1]))) = 0
   \<and> \<not> length (filter is_conflict_response (attempts (race dr_ahuja tuesday 600 [] [7, 8] [0, 1, 0, 1])))
         = length [7, 8::nat] - 1"
  by code_simp


end
